theory Spec2Isabelle
  imports Complex_Main "HOL-Library.AList"
begin

section \<open>The schema of \<^verbatim>\<open>models.py\<close>\<close>

text \<open>
  \<^verbatim>\<open>models.py\<close> is a declaration: six association tables and seven mapped
  classes, written with \<^verbatim>\<open>Table\<close>, \<^verbatim>\<open>Column\<close>, \<^verbatim>\<open>ForeignKey\<close> and
  \<^verbatim>\<open>relationship\<close>. The schema is embedded as data, one constant per source
  declaration and under the source's name; the column flags a claim depends on are read from
  this data and never restated by hand.
\<close>

subsection \<open>Columns, tables, relationships\<close>

datatype coltype = Integer | String nat | Text | DateTime bool | Float

text \<open>
  A \<^verbatim>\<open>Column(...)\<close> call. \<open>nullable\<close> is \<open>None\<close> where the source does not
  pass the keyword; the effective value is then \<open>\<not> primary_key\<close>, which is the default the
  declaration has (\<open>is_nullable\<close>). \<open>foreign_key\<close> holds the target of
  \<^verbatim>\<open>ForeignKey('t.c')\<close> as the pair \<open>(t, c)\<close>.
\<close>

record column =
  col_name :: string
  col_type :: coltype
  foreign_key :: "(string \<times> string) option"
  primary_key :: bool
  unique :: bool
  nullable :: "bool option"
  server_default_now :: bool
  onupdate_now :: bool

definition Column :: "string \<Rightarrow> coltype \<Rightarrow> column" where
  "Column n ty = \<lparr>col_name = n, col_type = ty, foreign_key = None, primary_key = False,
     unique = False, nullable = None, server_default_now = False, onupdate_now = False\<rparr>"

definition ForeignKey :: "string \<Rightarrow> string \<Rightarrow> column \<Rightarrow> column" where
  "ForeignKey t c col = col\<lparr>foreign_key := Some (t, c)\<rparr>"

definition is_nullable :: "column \<Rightarrow> bool" where
  "is_nullable c = (case nullable c of Some b \<Rightarrow> b | None \<Rightarrow> \<not> primary_key c)"

definition is_unique :: "column \<Rightarrow> bool" where
  "is_unique c = (unique c \<or> primary_key c)"

record table =
  tbl_name :: string
  tbl_columns :: "column list"

definition Table :: "string \<Rightarrow> column list \<Rightarrow> table" where
  "Table n cs = \<lparr>tbl_name = n, tbl_columns = cs\<rparr>"

text \<open>A \<^verbatim>\<open>relationship(argument, secondary=..., back_populates=...)\<close> call.\<close>

record relationship =
  rel_name :: string
  argument :: string
  secondary :: "string option"
  back_populates :: string

definition relationship :: "string \<Rightarrow> string \<Rightarrow> string option \<Rightarrow> string \<Rightarrow> relationship" where
  "relationship n target sec back =
     \<lparr>rel_name = n, argument = target, secondary = sec, back_populates = back\<rparr>"

record mapped_class =
  cls_name :: string
  tablename :: string
  cls_columns :: "column list"
  cls_relationships :: "relationship list"

subsection \<open>The association tables (lines 12 to 40)\<close>

definition user_favorite_characters :: table where
  "user_favorite_characters = Table ''user_favorite_characters''
     [ForeignKey ''users'' ''id'' (Column ''user_id'' Integer),
      ForeignKey ''characters'' ''id'' (Column ''character_id'' Integer)]"

definition user_favorite_planets :: table where
  "user_favorite_planets = Table ''user_favorite_planets''
     [ForeignKey ''users'' ''id'' (Column ''user_id'' Integer),
      ForeignKey ''planets'' ''id'' (Column ''planet_id'' Integer)]"

definition user_favorite_vehicles :: table where
  "user_favorite_vehicles = Table ''user_favorite_vehicles''
     [ForeignKey ''users'' ''id'' (Column ''user_id'' Integer),
      ForeignKey ''vehicles'' ''id'' (Column ''vehicle_id'' Integer)]"

definition character_films :: table where
  "character_films = Table ''character_films''
     [ForeignKey ''characters'' ''id'' (Column ''character_id'' Integer),
      ForeignKey ''films'' ''id'' (Column ''film_id'' Integer)]"

definition planet_films :: table where
  "planet_films = Table ''planet_films''
     [ForeignKey ''planets'' ''id'' (Column ''planet_id'' Integer),
      ForeignKey ''films'' ''id'' (Column ''film_id'' Integer)]"

definition vehicle_films :: table where
  "vehicle_films = Table ''vehicle_films''
     [ForeignKey ''vehicles'' ''id'' (Column ''vehicle_id'' Integer),
      ForeignKey ''films'' ''id'' (Column ''film_id'' Integer)]"

definition association_tables :: "table list" where
  "association_tables = [user_favorite_characters, user_favorite_planets,
     user_favorite_vehicles, character_films, planet_films, vehicle_films]"

subsection \<open>The mapped classes (lines 42 to 139)\<close>

definition User :: mapped_class where
  "User = \<lparr>cls_name = ''User'', tablename = ''users'',
     cls_columns =
       [(Column ''id'' Integer)\<lparr>primary_key := True\<rparr>,
        (Column ''username'' (String 80))\<lparr>unique := True, nullable := Some False\<rparr>,
        (Column ''email'' (String 120))\<lparr>unique := True, nullable := Some False\<rparr>,
        (Column ''password'' (String 255))\<lparr>nullable := Some False\<rparr>,
        (Column ''created_at'' (DateTime True))\<lparr>server_default_now := True\<rparr>,
        (Column ''updated_at'' (DateTime True))\<lparr>onupdate_now := True\<rparr>],
     cls_relationships =
       [relationship ''favorite_characters'' ''Character''
          (Some ''user_favorite_characters'') ''favorited_by'',
        relationship ''favorite_planets'' ''Planet''
          (Some ''user_favorite_planets'') ''favorited_by'',
        relationship ''favorite_vehicles'' ''Vehicle''
          (Some ''user_favorite_vehicles'') ''favorited_by'',
        relationship ''posts'' ''BlogPost'' None ''author'',
        relationship ''comments'' ''Comment'' None ''author'']\<rparr>"

definition Character :: mapped_class where
  "Character = \<lparr>cls_name = ''Character'', tablename = ''characters'',
     cls_columns =
       [(Column ''id'' Integer)\<lparr>primary_key := True\<rparr>,
        (Column ''name'' (String 100))\<lparr>nullable := Some False\<rparr>,
        Column ''species'' (String 50),
        Column ''birth_year'' (String 20),
        Column ''gender'' (String 20),
        Column ''height'' Integer,
        Column ''mass'' Integer,
        ForeignKey ''planets'' ''id'' (Column ''home_planet_id'' Integer)],
     cls_relationships =
       [relationship ''home_planet'' ''Planet'' None ''residents'',
        relationship ''favorited_by'' ''User''
          (Some ''user_favorite_characters'') ''favorite_characters'',
        relationship ''films'' ''Film'' (Some ''character_films'') ''characters'']\<rparr>"

definition Planet :: mapped_class where
  "Planet = \<lparr>cls_name = ''Planet'', tablename = ''planets'',
     cls_columns =
       [(Column ''id'' Integer)\<lparr>primary_key := True\<rparr>,
        (Column ''name'' (String 100))\<lparr>nullable := Some False\<rparr>,
        Column ''climate'' (String 50),
        Column ''terrain'' (String 50),
        Column ''population'' Integer,
        Column ''diameter'' Integer],
     cls_relationships =
       [relationship ''residents'' ''Character'' None ''home_planet'',
        relationship ''favorited_by'' ''User''
          (Some ''user_favorite_planets'') ''favorite_planets'',
        relationship ''films'' ''Film'' (Some ''planet_films'') ''planets'']\<rparr>"

definition Vehicle :: mapped_class where
  "Vehicle = \<lparr>cls_name = ''Vehicle'', tablename = ''vehicles'',
     cls_columns =
       [(Column ''id'' Integer)\<lparr>primary_key := True\<rparr>,
        (Column ''name'' (String 100))\<lparr>nullable := Some False\<rparr>,
        Column ''model'' (String 100),
        Column ''manufacturer'' (String 100),
        Column ''cost_in_credits'' Integer,
        Column ''length'' Float,
        Column ''max_atmosphering_speed'' Integer,
        Column ''crew'' Integer,
        Column ''passengers'' Integer,
        Column ''vehicle_class'' (String 50)],
     cls_relationships =
       [relationship ''favorited_by'' ''User''
          (Some ''user_favorite_vehicles'') ''favorite_vehicles'',
        relationship ''films'' ''Film'' (Some ''vehicle_films'') ''vehicles'']\<rparr>"

definition Film :: mapped_class where
  "Film = \<lparr>cls_name = ''Film'', tablename = ''films'',
     cls_columns =
       [(Column ''id'' Integer)\<lparr>primary_key := True\<rparr>,
        (Column ''title'' (String 100))\<lparr>nullable := Some False\<rparr>,
        Column ''episode_id'' Integer,
        Column ''opening_crawl'' Text,
        Column ''director'' (String 100),
        Column ''producer'' (String 100),
        Column ''release_date'' (DateTime False)],
     cls_relationships =
       [relationship ''characters'' ''Character'' (Some ''character_films'') ''films'',
        relationship ''planets'' ''Planet'' (Some ''planet_films'') ''films'',
        relationship ''vehicles'' ''Vehicle'' (Some ''vehicle_films'') ''films'']\<rparr>"

definition BlogPost :: mapped_class where
  "BlogPost = \<lparr>cls_name = ''BlogPost'', tablename = ''blog_posts'',
     cls_columns =
       [(Column ''id'' Integer)\<lparr>primary_key := True\<rparr>,
        (Column ''title'' (String 200))\<lparr>nullable := Some False\<rparr>,
        (Column ''content'' Text)\<lparr>nullable := Some False\<rparr>,
        (Column ''created_at'' (DateTime True))\<lparr>server_default_now := True\<rparr>,
        (Column ''updated_at'' (DateTime True))\<lparr>onupdate_now := True\<rparr>,
        ForeignKey ''users'' ''id'' (Column ''author_id'' Integer),
        Column ''category'' (String 50),
        Column ''tags'' (String 200)],
     cls_relationships =
       [relationship ''author'' ''User'' None ''posts'',
        relationship ''comments'' ''Comment'' None ''post'']\<rparr>"

definition Comment :: mapped_class where
  "Comment = \<lparr>cls_name = ''Comment'', tablename = ''comments'',
     cls_columns =
       [(Column ''id'' Integer)\<lparr>primary_key := True\<rparr>,
        (Column ''content'' Text)\<lparr>nullable := Some False\<rparr>,
        (Column ''created_at'' (DateTime True))\<lparr>server_default_now := True\<rparr>,
        (Column ''updated_at'' (DateTime True))\<lparr>onupdate_now := True\<rparr>,
        ForeignKey ''users'' ''id'' (Column ''author_id'' Integer),
        ForeignKey ''blog_posts'' ''id'' (Column ''post_id'' Integer)],
     cls_relationships =
       [relationship ''author'' ''User'' None ''comments'',
        relationship ''post'' ''BlogPost'' None ''comments'']\<rparr>"

definition mapped_classes :: "mapped_class list" where
  "mapped_classes = [User, Character, Planet, Vehicle, Film, BlogPost, Comment]"

text \<open>
  \<^verbatim>\<open>Base.metadata\<close>: every table registered on the declarative base, in the order of
  the file: the six \<^verbatim>\<open>Table(...)\<close> objects, then the table of each mapped class.
\<close>

definition class_table :: "mapped_class \<Rightarrow> table" where
  "class_table k = Table (tablename k) (cls_columns k)"

definition metadata :: "table list" where
  "metadata = association_tables @ map class_table mapped_classes"

section \<open>Rows under the declared constraints\<close>

text \<open>
  \<^verbatim>\<open>models.py\<close> stores no row itself: rows are kept by the database behind the mapping
  library. What the file fixes is what that database is asked to enforce:
  \<^verbatim>\<open>nullable=False\<close> is NOT NULL, \<^verbatim>\<open>unique=True\<close> and \<^verbatim>\<open>primary_key=True\<close>
  are uniqueness of the non-NULL values of the column, \<^verbatim>\<open>ForeignKey('t.c')\<close> is a
  reference to a value of column \<open>c\<close> of table \<open>t\<close>. The store below is the relational
  reading of exactly these flags, for any table of \<open>metadata\<close>: a statement that would
  break a constraint the database enforces is refused with an error and produces no new
  store. A statement is one SQL statement; what the mapping library does when an object is
  deleted or changed is a sequence of such statements. It checks
  nothing that the schema does not declare (no length limit, no type check), and it generates
  no value (a primary key is given by the statement; a database that numbers rows itself
  picks one such value). Every check reads the flags from \<open>metadata\<close>, so a property of
  the store is a property of the declarations.
\<close>

datatype val = Null | IntV int | StrV string | FloatV real | DateTimeV int

text \<open>
  NOT NULL and UNIQUE are enforced by every database. Whether a declared foreign key is
  enforced is a setting of the database: SQLite, the only engine the file names
  (\<^verbatim>\<open>create_engine('sqlite:///:memory:')\<close>, line 154), leaves foreign keys unchecked
  unless it is told otherwise, and nothing in the file tells it. So the store takes the
  engine as a parameter.
\<close>

record engine =
  foreign_keys :: bool

definition sqlite_memory :: engine where
  "sqlite_memory = \<lparr>foreign_keys = False\<rparr>"

definition enforcing :: engine where
  "enforcing = \<lparr>foreign_keys = True\<rparr>"

type_synonym row = "(string \<times> val) list"

type_synonym database = "string \<Rightarrow> row list"

datatype db_error =
    NoSuchTable string
  | NoSuchColumn string string
  | NotNullViolation string string
  | UniqueViolation string string
  | ForeignKeyViolation string string

definition empty_db :: database where
  "empty_db = (\<lambda>t. [])"

text \<open>A column the row does not mention is NULL.\<close>

definition cell :: "row \<Rightarrow> string \<Rightarrow> val" where
  "cell r c = (case map_of r c of None \<Rightarrow> Null | Some v \<Rightarrow> v)"

definition put :: "row \<Rightarrow> string \<Rightarrow> val \<Rightarrow> row" where
  "put r c v = AList.update c v r"

definition column_values :: "database \<Rightarrow> string \<Rightarrow> string \<Rightarrow> val list" where
  "column_values db t c = map (\<lambda>r. cell r c) (db t)"

text \<open>A \<^verbatim>\<open>WHERE c1 = v1 AND ...\<close> clause; a comparison with NULL selects no row.\<close>

definition matches :: "(string \<times> val) list \<Rightarrow> row \<Rightarrow> bool" where
  "matches w r = list_all (\<lambda>(c, v). v \<noteq> Null \<and> cell r c = v) w"

text \<open>The names in \<open>cs\<close> that are not columns of the table.\<close>

definition unknown_columns :: "table \<Rightarrow> string list \<Rightarrow> string list" where
  "unknown_columns T cs = filter (\<lambda>c. c \<notin> set (map col_name (tbl_columns T))) cs"

definition find_table :: "string \<Rightarrow> table option" where
  "find_table t = find (\<lambda>T. tbl_name T = t) metadata"

definition find_column :: "string \<Rightarrow> string \<Rightarrow> column option" where
  "find_column t c =
     (case find_table t of None \<Rightarrow> None | Some T \<Rightarrow> find (\<lambda>k. col_name k = c) (tbl_columns T))"

text \<open>Column \<open>c\<close> of table \<open>t\<close> is declared, and its declaration satisfies \<open>P\<close>.\<close>

definition declared :: "string \<Rightarrow> string \<Rightarrow> (column \<Rightarrow> bool) \<Rightarrow> bool" where
  "declared t c P = (case find_column t c of None \<Rightarrow> False | Some k \<Rightarrow> P k)"

text \<open>The foreign-key columns of the schema that point at column \<open>c\<close> of table \<open>t\<close>.\<close>

definition referencing :: "string \<Rightarrow> string \<Rightarrow> (string \<times> string) list" where
  "referencing t c =
     concat (map (\<lambda>T. map (\<lambda>k. (tbl_name T, col_name k))
                        (filter (\<lambda>k. foreign_key k = Some (t, c)) (tbl_columns T))) metadata)"

text \<open>
  What the flags of column \<open>k\<close> of table \<open>t\<close> forbid for a new value \<open>v\<close>, the other rows
  of the table holding \<open>others\<close> in that column. The foreign key counts only on an engine
  that enforces foreign keys.
\<close>

definition value_violations ::
  "engine \<Rightarrow> database \<Rightarrow> string \<Rightarrow> val list \<Rightarrow> column \<Rightarrow> val \<Rightarrow> db_error list" where
  "value_violations eng db t others k v =
     (if v = Null \<and> \<not> is_nullable k then [NotNullViolation t (col_name k)] else []) @
     (if is_unique k \<and> v \<noteq> Null \<and> v \<in> set others then [UniqueViolation t (col_name k)] else []) @
     (case foreign_key k of
        None \<Rightarrow> []
      | Some (t', c') \<Rightarrow>
          if foreign_keys eng \<and> v \<noteq> Null \<and> v \<notin> set (column_values db t' c')
          then [ForeignKeyViolation t (col_name k)] else [])"

text \<open>
  What the foreign keys pointing at column \<open>c\<close> of table \<open>t\<close> forbid when the values
  \<open>gone\<close> leave that column, on an engine that enforces foreign keys: a value that a row
  still refers to cannot go. An engine that does not enforce them forbids nothing here.
\<close>

definition restrict_violations ::
  "engine \<Rightarrow> database \<Rightarrow> string \<Rightarrow> string \<Rightarrow> val list \<Rightarrow> db_error list" where
  "restrict_violations eng db t c gone =
     (if foreign_keys eng
      then concat (map (\<lambda>(t2, c2).
             if list_ex (\<lambda>v. v \<noteq> Null \<and> v \<in> set (column_values db t2 c2)) gone
             then [ForeignKeyViolation t2 c2] else []) (referencing t c))
      else [])"

definition insert_row :: "engine \<Rightarrow> string \<Rightarrow> row \<Rightarrow> database \<Rightarrow> db_error + database" where
  "insert_row eng t r db =
     (case find_table t of
        None \<Rightarrow> Inl (NoSuchTable t)
      | Some T \<Rightarrow>
          (case unknown_columns T (map fst r) of
             c # _ \<Rightarrow> Inl (NoSuchColumn t c)
           | [] \<Rightarrow>
               (case concat (map (\<lambda>k. value_violations eng db t
                                (column_values db t (col_name k)) k (cell r (col_name k)))
                           (tbl_columns T)) of
                  e # _ \<Rightarrow> Inl e
                | [] \<Rightarrow> Inr (db(t := db t @ [r])))))"

definition update_rows ::
  "engine \<Rightarrow> string \<Rightarrow> (string \<times> val) list \<Rightarrow> string \<Rightarrow> val \<Rightarrow> database \<Rightarrow> db_error + database" where
  "update_rows eng t w c v db =
     (case find_table t of
        None \<Rightarrow> Inl (NoSuchTable t)
      | Some T \<Rightarrow>
          (case (find (\<lambda>k. col_name k = c) (tbl_columns T), unknown_columns T (map fst w)) of
             (None, _) \<Rightarrow> Inl (NoSuchColumn t c)
           | (Some k, c' # _) \<Rightarrow> Inl (NoSuchColumn t c')
           | (Some k, []) \<Rightarrow>
               (let hit = filter (matches w) (db t);
                    rest = filter (\<lambda>r. \<not> matches w r) (db t)
                in if hit = [] then Inr db
                   else
                     (case value_violations eng db t (map (\<lambda>r. cell r c) rest) k v @
                           (if is_unique k \<and> v \<noteq> Null \<and> 1 < length hit
                            then [UniqueViolation t c] else []) @
                           restrict_violations eng db t c
                             (filter (\<lambda>x. x \<noteq> v) (map (\<lambda>r. cell r c) hit)) of
                        e # _ \<Rightarrow> Inl e
                      | [] \<Rightarrow>
                          Inr (db(t := map (\<lambda>r. if matches w r then put r c v else r)
                                         (db t)))))))"

definition delete_rows ::
  "engine \<Rightarrow> string \<Rightarrow> (string \<times> val) list \<Rightarrow> database \<Rightarrow> db_error + database" where
  "delete_rows eng t w db =
     (case find_table t of
        None \<Rightarrow> Inl (NoSuchTable t)
      | Some T \<Rightarrow>
          (case unknown_columns T (map fst w) of
             c # _ \<Rightarrow> Inl (NoSuchColumn t c)
           | [] \<Rightarrow>
               (case concat (map (\<lambda>k. restrict_violations eng db t (col_name k)
                                    (map (\<lambda>r. cell r (col_name k)) (filter (matches w) (db t))))
                             (tbl_columns T)) of
                  e # _ \<Rightarrow> Inl e
                | [] \<Rightarrow> Inr (db(t := filter (\<lambda>r. \<not> matches w r) (db t))))))"

datatype statement =
    Insert string row
  | Update string "(string \<times> val) list" string val
  | Delete string "(string \<times> val) list"

fun execute :: "engine \<Rightarrow> statement \<Rightarrow> database \<Rightarrow> db_error + database" where
  "execute eng (Insert t r) db = insert_row eng t r db"
| "execute eng (Update t w c v) db = update_rows eng t w c v db"
| "execute eng (Delete t w) db = delete_rows eng t w db"

text \<open>A script of statements stops at the first one that is refused.\<close>

fun run :: "engine \<Rightarrow> statement list \<Rightarrow> database \<Rightarrow> db_error + database" where
  "run eng [] db = Inr db"
| "run eng (s # ss) db = (case execute eng s db of Inl e \<Rightarrow> Inl e | Inr db' \<Rightarrow> run eng ss db')"

text \<open>
  What a caller sees of one statement: the store afterwards, which is the store before when
  the statement was refused, and the error if there was one.
\<close>

definition attempt :: "engine \<Rightarrow> statement \<Rightarrow> database \<Rightarrow> database \<times> db_error option" where
  "attempt eng s db = (case execute eng s db of Inl e \<Rightarrow> (db, Some e) | Inr db' \<Rightarrow> (db', None))"

text \<open>What the three kinds of declared constraint say of the rows of one column.\<close>

definition filled :: "database \<Rightarrow> string \<Rightarrow> string \<Rightarrow> bool" where
  "filled db t c = (Null \<notin> set (column_values db t c))"

definition unique_in :: "database \<Rightarrow> string \<Rightarrow> string \<Rightarrow> bool" where
  "unique_in db t c = distinct (filter (\<lambda>v. v \<noteq> Null) (column_values db t c))"

definition refers :: "database \<Rightarrow> string \<Rightarrow> string \<Rightarrow> string \<Rightarrow> string \<Rightarrow> bool" where
  "refers db t c t' c' =
     (\<forall>r\<in>set (db t). cell r c = Null \<or> (\<exists>p\<in>set (db t'). cell p c' = cell r c))"

text \<open>
  The four reference columns of the entities: the home planet of a character, the author of a
  blog post, the author and the post of a comment.
\<close>

definition referential_integrity :: "database \<Rightarrow> bool" where
  "referential_integrity db =
     (refers db ''characters'' ''home_planet_id'' ''planets'' ''id'' \<and>
      refers db ''blog_posts'' ''author_id'' ''users'' ''id'' \<and>
      refers db ''comments'' ''author_id'' ''users'' ''id'' \<and>
      refers db ''comments'' ''post_id'' ''blog_posts'' ''id'')"

section \<open>Navigation along a relationship\<close>

text \<open>
  A \<^verbatim>\<open>relationship\<close> names its target class and, for a many-to-many link, its
  \<^verbatim>\<open>secondary\<close> table; the join itself is not written in the source but found from the
  foreign keys between the tables involved: with a secondary table, its foreign key to the
  class's own table and its foreign key to the target's table; without one, the single
  foreign key between the two tables, many-to-one on the side that holds the column and
  one-to-many on the other. \<open>join_of\<close> computes it from the declarations, and
  \<open>related\<close> is what a load of the attribute selects from the stored rows at the moment
  of the load. It is not what the attribute shows at every later moment: that is kept per
  session, see the next section.
\<close>

datatype join =
    ManyToOne "string \<times> string"
  | OneToMany "string \<times> string"
  | ManyToMany string "string \<times> string" "string \<times> string"

datatype mapper_error =
    NoSuchClass string
  | NoSuchRelationship string string
  | NoSuchSecondary string
  | NoForeignKeysError
  | AmbiguousForeignKeysError

definition find_class :: "string \<Rightarrow> mapped_class option" where
  "find_class n = find (\<lambda>K. cls_name K = n) mapped_classes"

definition find_relationship :: "mapped_class \<Rightarrow> string \<Rightarrow> relationship option" where
  "find_relationship K n = find (\<lambda>r. rel_name r = n) (cls_relationships K)"

text \<open>The foreign keys among \<open>cs\<close> that point at table \<open>t\<close>: (column, referenced column).\<close>

definition fk_columns_to :: "column list \<Rightarrow> string \<Rightarrow> (string \<times> string) list" where
  "fk_columns_to cs t =
     concat (map (\<lambda>k. case foreign_key k of
                         None \<Rightarrow> []
                       | Some (t', c') \<Rightarrow> if t' = t then [(col_name k, c')] else []) cs)"

definition the_only :: "'a list \<Rightarrow> mapper_error + 'a" where
  "the_only xs = (case xs of [] \<Rightarrow> Inl NoForeignKeysError | [x] \<Rightarrow> Inr x
                   | _ \<Rightarrow> Inl AmbiguousForeignKeysError)"

definition join_of :: "mapped_class \<Rightarrow> relationship \<Rightarrow> mapper_error + string \<times> join" where
  "join_of K rel =
     (case find_class (argument rel) of
        None \<Rightarrow> Inl (NoSuchClass (argument rel))
      | Some K' \<Rightarrow>
          (case secondary rel of
             Some s \<Rightarrow>
               (case find_table s of
                  None \<Rightarrow> Inl (NoSuchSecondary s)
                | Some S \<Rightarrow>
                    (case the_only (fk_columns_to (tbl_columns S) (tablename K)) of
                       Inl e \<Rightarrow> Inl e
                     | Inr a \<Rightarrow>
                         (case the_only (fk_columns_to (tbl_columns S) (tablename K')) of
                            Inl e \<Rightarrow> Inl e
                          | Inr b \<Rightarrow> Inr (tablename K', ManyToMany s a b))))
           | None \<Rightarrow>
               (case fk_columns_to (cls_columns K) (tablename K') of
                  [] \<Rightarrow>
                    (case the_only (fk_columns_to (cls_columns K') (tablename K)) of
                       Inl e \<Rightarrow> Inl e
                     | Inr b \<Rightarrow> Inr (tablename K', OneToMany b))
                | [a] \<Rightarrow>
                    (if fk_columns_to (cls_columns K') (tablename K) = []
                     then Inr (tablename K', ManyToOne a)
                     else Inl AmbiguousForeignKeysError)
                | _ \<Rightarrow> Inl AmbiguousForeignKeysError)))"

text \<open>Two cells join when they are equal and not NULL.\<close>

definition joined :: "val \<Rightarrow> val \<Rightarrow> bool" where
  "joined a b = (a \<noteq> Null \<and> a = b)"

fun linked :: "database \<Rightarrow> join \<Rightarrow> row \<Rightarrow> row \<Rightarrow> bool" where
  "linked db (ManyToOne (fk, key)) r r' = joined (cell r fk) (cell r' key)"
| "linked db (OneToMany (fk, key)) r r' = joined (cell r' fk) (cell r key)"
| "linked db (ManyToMany s (a, key) (b, key')) r r' =
     list_ex (\<lambda>l. joined (cell l a) (cell r key) \<and> joined (cell l b) (cell r' key')) (db s)"

definition related :: "database \<Rightarrow> mapped_class \<Rightarrow> string \<Rightarrow> row \<Rightarrow> mapper_error + row list" where
  "related db K n r =
     (case find_relationship K n of
        None \<Rightarrow> Inl (NoSuchRelationship (cls_name K) n)
      | Some rel \<Rightarrow>
          (case join_of K rel of
             Inl e \<Rightarrow> Inl e
           | Inr (t', j) \<Rightarrow> Inr (filter (linked db j r) (db t'))))"

section \<open>Attributes in a session\<close>



















section \<open>The diagram script\<close>

text \<open>
  Running the file as a script executes all of it: first the module body (lines 1 to 139: the
  imports of \<^verbatim>\<open>sqlalchemy\<close>, \<^verbatim>\<open>os\<close> and \<^verbatim>\<open>sys\<close>, outside any
  \<^verbatim>\<open>try\<close>, and the declarations), then the block under
  \<^verbatim>\<open>if __name__ == "__main__"\<close> (lines 142 to 173). What the script meets outside
  itself is the environment: the absolute path of the file; whether the module body runs or
  raises; whether the operating system refuses \<^verbatim>\<open>os.remove\<close> (no permission, or any
  other \<^verbatim>\<open>OSError\<close>); whether the import of \<^verbatim>\<open>sqlalchemy_schemadisplay\<close>
  succeeds or raises; and what the calls from \<^verbatim>\<open>create_engine\<close> to
  \<^verbatim>\<open>write_png\<close> do (they produce the bytes of the image or raise). What it changes is
  the file system, looked at as a map from paths to entries, and what it shows is a list of
  events in order.
\<close>

type_synonym path = "string list"

datatype entry = Absent | RegularFile string | Directory

text \<open>
  \<open>ImportError\<close> stands for the class and its subclasses (\<^verbatim>\<open>ModuleNotFoundError\<close>),
  which \<^verbatim>\<open>except ImportError\<close> catches alike.
\<close>

datatype exn =
    FileNotFoundError
  | IsADirectoryError
  | PermissionError
  | ImportError
  | OtherError string

datatype event =
    Removed path
  | TriedImport string bool
  | Wrote path string
  | Printed string
  | Traceback exn
  | Exited nat

record env =
  script_file :: path
  module_body :: "exn option"
  remove_refused :: "exn option"
  schemadisplay_import :: "exn option"
  render :: "exn + string"

record outcome =
  files :: "path \<Rightarrow> entry"
  events :: "event list"
  exit_status :: nat

definition dirname :: "path \<Rightarrow> path" where
  "dirname p = butlast p"

definition path_str :: "path \<Rightarrow> string" where
  "path_str p = concat (map (\<lambda>c. ''/'' @ c) p)"

text \<open>\<^verbatim>\<open>os.path.join(os.path.dirname(os.path.dirname(os.path.abspath(__file__))), 'diagram.png')\<close>\<close>

definition output_path :: "env \<Rightarrow> path" where
  "output_path e = dirname (dirname (script_file e)) @ [''diagram.png'']"

text \<open>
  \<^verbatim>\<open>os.remove\<close>: what the operating system refuses raises what it says; otherwise a
  missing path raises \<^verbatim>\<open>FileNotFoundError\<close>, a directory raises an \<^verbatim>\<open>OSError\<close>
  that is not a \<^verbatim>\<open>FileNotFoundError\<close>, and a file is removed.
\<close>

definition os_remove :: "env \<Rightarrow> (path \<Rightarrow> entry) \<Rightarrow> path \<Rightarrow> exn + (path \<Rightarrow> entry)" where
  "os_remove e fs p =
     (case remove_refused e of
        Some x \<Rightarrow> Inl x
      | None \<Rightarrow>
          (case fs p of
             Absent \<Rightarrow> Inl FileNotFoundError
           | Directory \<Rightarrow> Inl IsADirectoryError
           | RegularFile _ \<Rightarrow> Inr (fs(p := Absent))))"

text \<open>An exception nothing catches: the interpreter prints the traceback and exits with 1.\<close>

definition uncaught :: "exn \<Rightarrow> (path \<Rightarrow> entry) \<Rightarrow> event list \<Rightarrow> outcome" where
  "uncaught x fs evs = \<lparr>files = fs, events = evs @ [Traceback x, Exited 1], exit_status = 1\<rparr>"

text \<open>The \<^verbatim>\<open>except ImportError\<close> block (lines 168 to 173): four lines, then \<^verbatim>\<open>sys.exit(1)\<close>.\<close>

definition failure_lines :: "string list" where
  "failure_lines =
     [''Error: Could not import sqlalchemy_schemadisplay.'',
      ''Please install it using: pip install sqlalchemy_schemadisplay'',
      ''You may also need to install: pip install pydot'',
      ''And on Ubuntu/Debian: sudo apt-get install graphviz'']"

definition import_error_handler :: "(path \<Rightarrow> entry) \<Rightarrow> event list \<Rightarrow> outcome" where
  "import_error_handler fs evs =
     \<lparr>files = fs, events = evs @ map Printed failure_lines @ [Exited 1], exit_status = 1\<rparr>"

text \<open>
  The second \<^verbatim>\<open>try\<close> block (lines 149 to 167). An \<^verbatim>\<open>ImportError\<close> from the import
  or from any call after it goes to the handler; any other exception is caught by nothing.
\<close>

definition draw :: "env \<Rightarrow> (path \<Rightarrow> entry) \<Rightarrow> event list \<Rightarrow> outcome" where
  "draw e fs evs =
     (case schemadisplay_import e of
        Some x \<Rightarrow>
          (if x = ImportError
           then import_error_handler fs (evs @ [TriedImport ''sqlalchemy_schemadisplay'' False])
           else uncaught x fs (evs @ [TriedImport ''sqlalchemy_schemadisplay'' False]))
      | None \<Rightarrow>
          (case render e of
             Inr png \<Rightarrow>
               \<lparr>files = fs(output_path e := RegularFile png),
                events = evs @
                  [TriedImport ''sqlalchemy_schemadisplay'' True,
                   Wrote (output_path e) png,
                   Printed (''diagram.png generated successfully at '' @
                            path_str (output_path e) @ ''!'')],
                exit_status = 0\<rparr>
           | Inl x \<Rightarrow>
               (if x = ImportError
                then import_error_handler fs
                       (evs @ [TriedImport ''sqlalchemy_schemadisplay'' True])
                else uncaught x fs (evs @ [TriedImport ''sqlalchemy_schemadisplay'' True]))))"

text \<open>
  The whole run: the module body; then the first \<^verbatim>\<open>try\<close> block (lines 144 to 147),
  which lets only \<^verbatim>\<open>FileNotFoundError\<close> pass; then the second.
\<close>

definition main :: "env \<Rightarrow> (path \<Rightarrow> entry) \<Rightarrow> outcome" where
  "main e fs =
     (case module_body e of
        Some x \<Rightarrow> uncaught x fs []
      | None \<Rightarrow>
          (case os_remove e fs (output_path e) of
             Inr fs' \<Rightarrow> draw e fs' [Removed (output_path e)]
           | Inl x \<Rightarrow> (if x = FileNotFoundError then draw e fs [] else uncaught x fs [])))"

definition stdout :: "outcome \<Rightarrow> string list" where
  "stdout r = concat (map (\<lambda>ev. case ev of Printed s \<Rightarrow> [s] | _ \<Rightarrow> []) (events r))"

section \<open>Rows used in the examples\<close>

definition leia :: row where
  "leia = [(''id'', IntV 1), (''username'', StrV ''leia''),
           (''email'', StrV ''leia@alderaan.org''), (''password'', StrV ''x'')]"

definition han :: row where
  "han = [(''id'', IntV 2), (''username'', StrV ''han''),
          (''email'', StrV ''han@falcon.net''), (''password'', StrV ''y'')]"

text \<open>A third user under a new name and a new id, with the email of \<open>leia\<close>.\<close>

definition impostor :: row where
  "impostor = [(''id'', IntV 3), (''username'', StrV ''organa''),
               (''email'', StrV ''leia@alderaan.org''), (''password'', StrV ''z'')]"

definition tatooine :: row where
  "tatooine = [(''id'', IntV 1), (''name'', StrV ''Tatooine'')]"

text \<open>Luke Skywalker, created with \<^verbatim>\<open>home_planet = tatooine\<close>: his reference is its id.\<close>

definition luke :: row where
  "luke = [(''id'', IntV 1), (''name'', StrV ''Luke Skywalker''),
           (''home_planet_id'', cell tatooine ''id'')]"

text \<open>Luke Skywalker as the constructor gets him, before any home planet is given.\<close>

definition luke_columns :: row where
  "luke_columns = [(''id'', IntV 1), (''name'', StrV ''Luke Skywalker'')]"

definition a_new_hope :: row where
  "a_new_hope = [(''id'', IntV 4), (''title'', StrV ''A New Hope'')]"

definition x_wing :: row where
  "x_wing = [(''id'', IntV 7), (''name'', StrV ''X-wing'')]"

definition luke_favorite :: row where
  "luke_favorite = [(''user_id'', IntV 1), (''character_id'', IntV 1)]"

definition luke_in_a_new_hope :: row where
  "luke_in_a_new_hope = [(''character_id'', IntV 1), (''film_id'', IntV 4)]"

definition tatooine_in_a_new_hope :: row where
  "tatooine_in_a_new_hope = [(''planet_id'', IntV 1), (''film_id'', IntV 4)]"

definition x_wing_in_a_new_hope :: row where
  "x_wing_in_a_new_hope = [(''vehicle_id'', IntV 7), (''film_id'', IntV 4)]"

text \<open>A character whose home planet is a planet that is not stored.\<close>

definition rey :: row where
  "rey = [(''id'', IntV 2), (''name'', StrV ''Rey''), (''home_planet_id'', IntV 9)]"

definition post :: row where
  "post = [(''id'', IntV 10), (''title'', StrV ''Hello''), (''content'', StrV ''There''),
           (''author_id'', IntV 1)]"

definition reply :: row where
  "reply = [(''id'', IntV 20), (''content'', StrV ''General Kenobi''),
            (''author_id'', IntV 2), (''post_id'', IntV 10)]"

text \<open>A comment with content and neither author nor post, and one without content.\<close>

definition orphan :: row where
  "orphan = [(''id'', IntV 21), (''content'', StrV ''lost'')]"

definition blank :: row where
  "blank = [(''id'', IntV 22), (''author_id'', IntV 2), (''post_id'', IntV 10)]"

text \<open>A small store: the statements that build it, and the rows it then holds.\<close>

definition galaxy_script :: "statement list" where
  "galaxy_script =
     [Insert ''users'' leia, Insert ''users'' han,
      Insert ''planets'' tatooine, Insert ''characters'' luke,
      Insert ''films'' a_new_hope, Insert ''vehicles'' x_wing,
      Insert ''character_films'' luke_in_a_new_hope,
      Insert ''planet_films'' tatooine_in_a_new_hope,
      Insert ''vehicle_films'' x_wing_in_a_new_hope,
      Insert ''user_favorite_characters'' luke_favorite,
      Insert ''blog_posts'' post, Insert ''comments'' reply]"

definition galaxy :: database where
  "galaxy = empty_db
     (''users'' := [leia, han],
      ''planets'' := [tatooine],
      ''characters'' := [luke],
      ''films'' := [a_new_hope],
      ''vehicles'' := [x_wing],
      ''character_films'' := [luke_in_a_new_hope],
      ''planet_films'' := [tatooine_in_a_new_hope],
      ''vehicle_films'' := [x_wing_in_a_new_hope],
      ''user_favorite_characters'' := [luke_favorite],
      ''blog_posts'' := [post],
      ''comments'' := [reply])"





text \<open>
  Environments of the script, with the file at \<^verbatim>\<open>/repo/src/models.py\<close>: one where
  the drawing package is installed and draws, one where it is missing; and two file systems,
  an empty one and one that holds a diagram from before.
\<close>

definition with_dependency :: env where
  "with_dependency = \<lparr>script_file = [''repo'', ''src'', ''models.py''],
     module_body = None, remove_refused = None,
     schemadisplay_import = None, render = Inr ''PNG''\<rparr>"

definition missing_dependency :: env where
  "missing_dependency = \<lparr>script_file = [''repo'', ''src'', ''models.py''],
     module_body = None, remove_refused = None,
     schemadisplay_import = Some ImportError, render = Inl ImportError\<rparr>"

text \<open>
  The package is missing and the repository root is read-only; and \<^verbatim>\<open>sqlalchemy\<close>
  itself is missing.
\<close>

definition read_only_root :: env where
  "read_only_root = missing_dependency\<lparr>remove_refused := Some PermissionError\<rparr>"

definition missing_sqlalchemy :: env where
  "missing_sqlalchemy = missing_dependency\<lparr>module_body := Some ImportError\<rparr>"

definition no_files :: "path \<Rightarrow> entry" where
  "no_files = (\<lambda>p. Absent)"

definition earlier_diagram :: "path \<Rightarrow> entry" where
  "earlier_diagram = no_files([''repo'', ''diagram.png''] := RegularFile ''old'')"

section \<open>Facts of the schema\<close>

lemmas schema_defs =
  metadata_def association_tables_def mapped_classes_def class_table_def Table_def Column_def
  ForeignKey_def relationship_def
  user_favorite_characters_def user_favorite_planets_def user_favorite_vehicles_def
  character_films_def planet_films_def vehicle_films_def
  User_def Character_def Planet_def Vehicle_def Film_def BlogPost_def Comment_def

text \<open>
  Claim C5. The schema is seven mapped classes and six association tables. Each association
  table has two columns, each of them a foreign key to the \<open>id\<close> of an entity table, and no
  column without a foreign key (no payload). Each association table is the \<open>secondary\<close> of
  exactly two relationships, one on each of the two classes it links (many-to-many).
\<close>

theorem schema_seven_entities_six_associations:
  "map cls_name mapped_classes =
     [''User'', ''Character'', ''Planet'', ''Vehicle'', ''Film'', ''BlogPost'', ''Comment'']
   \<and> length mapped_classes = 7
   \<and> length association_tables = 6
   \<and> map (\<lambda>t. (tbl_name t, map (\<lambda>k. (col_name k, foreign_key k)) (tbl_columns t)))
        association_tables =
      [(''user_favorite_characters'',
          [(''user_id'', Some (''users'', ''id'')), (''character_id'', Some (''characters'', ''id''))]),
       (''user_favorite_planets'',
          [(''user_id'', Some (''users'', ''id'')), (''planet_id'', Some (''planets'', ''id''))]),
       (''user_favorite_vehicles'',
          [(''user_id'', Some (''users'', ''id'')), (''vehicle_id'', Some (''vehicles'', ''id''))]),
       (''character_films'',
          [(''character_id'', Some (''characters'', ''id'')), (''film_id'', Some (''films'', ''id''))]),
       (''planet_films'',
          [(''planet_id'', Some (''planets'', ''id'')), (''film_id'', Some (''films'', ''id''))]),
       (''vehicle_films'',
          [(''vehicle_id'', Some (''vehicles'', ''id'')), (''film_id'', Some (''films'', ''id''))])]
   \<and> map (\<lambda>t. length (tbl_columns t)) association_tables = [2, 2, 2, 2, 2, 2]
   \<and> map (\<lambda>t. filter (\<lambda>k. foreign_key k = None) (tbl_columns t)) association_tables =
        [[], [], [], [], [], []]
   \<and> map (\<lambda>t. concat (map (\<lambda>k. map (\<lambda>r. (cls_name k, rel_name r))
                  (filter (\<lambda>r. secondary r = Some (tbl_name t)) (cls_relationships k)))
                mapped_classes)) association_tables =
      [[(''User'', ''favorite_characters''), (''Character'', ''favorited_by'')],
       [(''User'', ''favorite_planets''), (''Planet'', ''favorited_by'')],
       [(''User'', ''favorite_vehicles''), (''Vehicle'', ''favorited_by'')],
       [(''Character'', ''films''), (''Film'', ''characters'')],
       [(''Planet'', ''films''), (''Film'', ''planets'')],
       [(''Vehicle'', ''films''), (''Film'', ''vehicles'')]]"
  by (simp add: schema_defs)

section \<open>The store keeps the declared constraints\<close>

subsection \<open>Well-formedness of the declarations\<close>

lemma cell_put: "cell (put r c v) c' = (if c' = c then v else cell r c')"
  by (simp add: cell_def put_def update_conv')

lemma distinct_table_names: "distinct (map tbl_name metadata)"
  by (simp add: schema_defs)

lemma all_distinct_column_names:
  "list_all (\<lambda>T. distinct (map col_name (tbl_columns T))) metadata"
  by (simp add: schema_defs)

lemma distinct_column_names: "T \<in> set metadata \<Longrightarrow> distinct (map col_name (tbl_columns T))"
  using all_distinct_column_names by (simp add: list_all_iff)

lemma find_table_SomeD: "find_table t = Some T \<Longrightarrow> T \<in> set metadata \<and> tbl_name T = t"
  by (auto simp: find_table_def find_Some_iff)

lemma table_eqI:
  "T \<in> set metadata \<Longrightarrow> T' \<in> set metadata \<Longrightarrow> tbl_name T = tbl_name T' \<Longrightarrow> T = T'"
  using distinct_table_names by (meson distinct_map inj_onD)

lemma column_eqI:
  "T \<in> set metadata \<Longrightarrow> k \<in> set (tbl_columns T) \<Longrightarrow> k' \<in> set (tbl_columns T) \<Longrightarrow>
   col_name k = col_name k' \<Longrightarrow> k = k'"
  using distinct_column_names by (meson distinct_map inj_onD)

lemma find_column_SomeD:
  "find (\<lambda>k. col_name k = c) cs = Some k \<Longrightarrow> k \<in> set cs \<and> col_name k = c"
  by (auto simp: find_Some_iff)

lemma value_violations_Nil:
  "value_violations eng db t others k v = [] \<longleftrightarrow>
     (v = Null \<longrightarrow> is_nullable k) \<and>
     (is_unique k \<longrightarrow> v \<noteq> Null \<longrightarrow> v \<notin> set others) \<and>
     (foreign_keys eng \<longrightarrow>
        (\<forall>t' c'. foreign_key k = Some (t', c') \<longrightarrow> v = Null \<or> v \<in> set (column_values db t' c')))"
  by (auto simp: value_violations_def split: option.splits)

lemma referencing_iff:
  "(t2, c2) \<in> set (referencing t c) \<longleftrightarrow>
     (\<exists>T\<in>set metadata. \<exists>k\<in>set (tbl_columns T).
        tbl_name T = t2 \<and> col_name k = c2 \<and> foreign_key k = Some (t, c))"
  by (auto simp: referencing_def)

lemma restrict_violations_Nil:
  assumes "foreign_keys eng"
  shows "restrict_violations eng db t c gone = [] \<longleftrightarrow>
     (\<forall>T\<in>set metadata. \<forall>k\<in>set (tbl_columns T). foreign_key k = Some (t, c) \<longrightarrow>
        (\<forall>v\<in>set gone. v \<noteq> Null \<longrightarrow> v \<notin> set (column_values db (tbl_name T) (col_name k))))"
proof -
  have "restrict_violations eng db t c gone = [] \<longleftrightarrow>
     (\<forall>(t2, c2)\<in>set (referencing t c). \<forall>v\<in>set gone. v \<noteq> Null \<longrightarrow> v \<notin> set (column_values db t2 c2))"
    unfolding restrict_violations_def using assms
    by (fastforce simp: list_ex_iff split: if_splits)
  also have "\<dots> \<longleftrightarrow> (\<forall>T\<in>set metadata. \<forall>k\<in>set (tbl_columns T). foreign_key k = Some (t, c) \<longrightarrow>
        (\<forall>v\<in>set gone. v \<noteq> Null \<longrightarrow> v \<notin> set (column_values db (tbl_name T) (col_name k))))"
    by (force simp: referencing_iff)
  finally show ?thesis .
qed

lemma first_error_Inr:
  "(case es of [] \<Rightarrow> Inr a | e # x \<Rightarrow> Inl e) = Inr b \<longleftrightarrow> es = [] \<and> a = b"
  by (cases es) auto

lemma insert_row_InrD:
  assumes "insert_row eng t r db = Inr db'"
  shows "\<exists>T. find_table t = Some T \<and>
     (\<forall>k\<in>set (tbl_columns T).
         value_violations eng db t (column_values db t (col_name k)) k (cell r (col_name k)) = []) \<and>
     db' = db(t := db t @ [r])"
proof (cases "find_table t")
  case None
  with assms show ?thesis by (simp add: insert_row_def)
next
  case (Some T)
  with assms show ?thesis
    by (simp add: insert_row_def first_error_Inr split: list.splits)
qed

lemma update_rows_InrD:
  assumes "update_rows eng t w c v db = Inr db'"
  shows "db' = db \<or>
    (\<exists>T k. find_table t = Some T \<and> k \<in> set (tbl_columns T) \<and> col_name k = c \<and>
      value_violations eng db t (map (\<lambda>r. cell r c) (filter (\<lambda>r. \<not> matches w r) (db t))) k v = [] \<and>
      (is_unique k \<longrightarrow> v \<noteq> Null \<longrightarrow> length (filter (matches w) (db t)) \<le> 1) \<and>
      restrict_violations eng db t c
         (filter (\<lambda>x. x \<noteq> v) (map (\<lambda>r. cell r c) (filter (matches w) (db t)))) = [] \<and>
      db' = db(t := map (\<lambda>r. if matches w r then put r c v else r) (db t)))"
proof (cases "find_table t")
  case None
  with assms show ?thesis by (simp add: update_rows_def)
next
  case T: (Some T)
  show ?thesis
  proof (cases "find (\<lambda>k. col_name k = c) (tbl_columns T)")
    case None
    with assms T show ?thesis by (simp add: update_rows_def)
  next
    case (Some k)
    from assms T Some have known: "unknown_columns T (map fst w) = []"
      by (cases "unknown_columns T (map fst w)") (simp_all add: update_rows_def)
    show ?thesis
    proof (cases "filter (matches w) (db t) = []")
      case True
      with assms T Some known show ?thesis by (simp add: update_rows_def)
    next
      case False
      with assms T Some known have
        "value_violations eng db t (map (\<lambda>r. cell r c) (filter (\<lambda>r. \<not> matches w r) (db t))) k v = []"
        "(if is_unique k \<and> v \<noteq> Null \<and> 1 < length (filter (matches w) (db t))
            then [UniqueViolation t c] else []) = []"
        "restrict_violations eng db t c
           (filter (\<lambda>x. x \<noteq> v) (map (\<lambda>r. cell r c) (filter (matches w) (db t)))) = []"
        "db' = db(t := map (\<lambda>r. if matches w r then put r c v else r) (db t))"
        by (simp_all add: update_rows_def Let_def first_error_Inr)
      moreover from this(2) have
        "is_unique k \<longrightarrow> v \<noteq> Null \<longrightarrow> length (filter (matches w) (db t)) \<le> 1"
        by (auto split: if_splits simp: not_less)
      ultimately show ?thesis
        using T find_column_SomeD[OF Some] by blast
    qed
  qed
qed

lemma delete_rows_InrD:
  assumes "delete_rows eng t w db = Inr db'"
  shows "\<exists>T. find_table t = Some T \<and>
     (\<forall>k\<in>set (tbl_columns T).
           restrict_violations eng db t (col_name k)
             (map (\<lambda>r. cell r (col_name k)) (filter (matches w) (db t))) = []) \<and>
     db' = db(t := filter (\<lambda>r. \<not> matches w r) (db t))"
proof (cases "find_table t")
  case None
  with assms show ?thesis by (simp add: delete_rows_def)
next
  case (Some T)
  with assms show ?thesis
    by (cases "unknown_columns T (map fst w)") (simp_all add: delete_rows_def first_error_Inr)
qed

lemma fk_targets_are_ids:
  "list_all (\<lambda>T. list_all (\<lambda>k. case foreign_key k of None \<Rightarrow> True
       | Some (t', c') \<Rightarrow> c' = ''id'' \<and> t' \<in> set (map tablename mapped_classes))
     (tbl_columns T)) metadata"
  by (simp add: schema_defs)

lemma classes_have_id:
  "list_all (\<lambda>K. ''id'' \<in> set (map col_name (cls_columns K))) mapped_classes"
  by (simp add: schema_defs)

lemma fk_target_exists:
  assumes "T \<in> set metadata" "k \<in> set (tbl_columns T)" "foreign_key k = Some (t', c')"
  shows "\<exists>T'\<in>set metadata. tbl_name T' = t' \<and> c' \<in> col_name ` set (tbl_columns T')"
proof -
  from assms fk_targets_are_ids have "c' = ''id''" "t' \<in> set (map tablename mapped_classes)"
    by (fastforce simp: list_all_iff)+
  then obtain K where K: "K \<in> set mapped_classes" "tablename K = t'" by auto
  then have "class_table K \<in> set metadata" by (simp add: metadata_def)
  moreover from K classes_have_id have "''id'' \<in> col_name ` set (cls_columns K)"
    by (auto simp: list_all_iff)
  ultimately show ?thesis using K \<open>c' = ''id''\<close>
    by (intro bexI[of _ "class_table K"]) (simp_all add: class_table_def Table_def)
qed

lemma column_values_other [simp]:
  "t' \<noteq> t \<Longrightarrow> column_values (db(t := rows)) t' c = column_values db t' c"
  by (simp add: column_values_def)

lemma column_values_same [simp]:
  "column_values (db(t := rows)) t c = map (\<lambda>r. cell r c) rows"
  by (simp add: column_values_def)


subsection \<open>FOREIGN KEY: a reference stays resolved\<close>

lemma refers_D:
  "refers db t c t' c' \<Longrightarrow> r \<in> set (db t) \<Longrightarrow> cell r c \<noteq> Null \<Longrightarrow>
   \<exists>p\<in>set (db t'). cell p c' = cell r c"
  unfolding refers_def by blast

lemma refers_I:
  assumes "\<And>r. r \<in> set (db t) \<Longrightarrow> cell r c \<noteq> Null \<Longrightarrow> \<exists>p\<in>set (db t'). cell p c' = cell r c"
  shows "refers db t c t' c'"
  unfolding refers_def using assms by blast

lemma refers_insert:
  assumes en: "foreign_keys eng" and T': "T' \<in> set metadata" and k: "k \<in> set (tbl_columns T')"
    and fk: "foreign_key k = Some (t', c')"
    and inv: "refers db (tbl_name T') (col_name k) t' c'"
    and ok: "insert_row eng t r db = Inr db'"
  shows "refers db' (tbl_name T') (col_name k) t' c'"
proof -
  from insert_row_InrD[OF ok] obtain T where T: "find_table t = Some T"
    and chk: "\<And>k. k \<in> set (tbl_columns T) \<Longrightarrow>
           value_violations eng db t (column_values db t (col_name k)) k (cell r (col_name k)) = []"
    and db': "db' = db(t := db t @ [r])"
    by blast
  from T have Tm: "T \<in> set metadata" and Tn: "tbl_name T = t"
    by (simp_all add: find_table_SomeD)
  have mono: "set (db x) \<subseteq> set (db' x)" for x
    by (auto simp: db')
  show ?thesis
  proof (rule refers_I)
    fix q
    assume q: "q \<in> set (db' (tbl_name T'))" and nn: "cell q (col_name k) \<noteq> Null"
    have "\<exists>p\<in>set (db t'). cell p c' = cell q (col_name k)"
    proof (cases "q \<in> set (db (tbl_name T'))")
      case True
      show ?thesis by (rule refers_D[OF inv True nn])
    next
      case False
      with q have "tbl_name T' = t" and qr: "q = r"
        by (auto simp: db' split: if_splits)
      with T' Tm Tn have "T' = T" by (simp add: table_eqI)
      with k have "value_violations eng db t (column_values db t (col_name k)) k (cell r (col_name k)) = []"
        by (simp add: chk)
      with en fk nn qr show ?thesis
        by (simp add: value_violations_Nil column_values_def image_iff) metis
    qed
    with mono show "\<exists>p\<in>set (db' t'). cell p c' = cell q (col_name k)" by blast
  qed
qed

lemma refers_delete:
  assumes en: "foreign_keys eng" and T': "T' \<in> set metadata" and k: "k \<in> set (tbl_columns T')"
    and fk: "foreign_key k = Some (t', c')"
    and inv: "refers db (tbl_name T') (col_name k) t' c'"
    and ok: "delete_rows eng t w db = Inr db'"
  shows "refers db' (tbl_name T') (col_name k) t' c'"
proof -
  from delete_rows_InrD[OF ok] obtain T where T: "find_table t = Some T"
    and chk: "\<And>k. k \<in> set (tbl_columns T) \<Longrightarrow>
           restrict_violations eng db t (col_name k)
             (map (\<lambda>r. cell r (col_name k)) (filter (matches w) (db t))) = []"
    and db': "db' = db(t := filter (\<lambda>r. \<not> matches w r) (db t))"
    by blast
  from T have Tm: "T \<in> set metadata" and Tn: "tbl_name T = t"
    by (simp_all add: find_table_SomeD)
  have anti: "set (db' x) \<subseteq> set (db x)" for x
    by (auto simp: db')
  show ?thesis
  proof (rule refers_I)
    fix q
    assume q: "q \<in> set (db' (tbl_name T'))" and nn: "cell q (col_name k) \<noteq> Null"
    from q anti have q0: "q \<in> set (db (tbl_name T'))" by blast
    from refers_D[OF inv q0 nn]
    obtain p where p: "p \<in> set (db t')" "cell p c' = cell q (col_name k)"
      by blast
    have "p \<in> set (db' t')"
    proof (cases "t' = t \<and> matches w p")
      case False
      with p show ?thesis by (auto simp: db')
    next
      case True
      from fk_target_exists[OF T' k fk] obtain T2 k2 where
        T2: "T2 \<in> set metadata" "tbl_name T2 = t'" "k2 \<in> set (tbl_columns T2)" "col_name k2 = c'"
        by auto
      with True Tm Tn have "T2 = T" by (simp add: table_eqI)
      with T2 have "k2 \<in> set (tbl_columns T)" by simp
      from chk[OF this] \<open>col_name k2 = c'\<close>
      have rv: "restrict_violations eng db t c' (map (\<lambda>r. cell r c') (filter (matches w) (db t))) = []"
        by simp
      from True p have "cell q (col_name k) \<in> set (map (\<lambda>r. cell r c') (filter (matches w) (db t)))"
        by (simp add: image_iff) metis
      with rv T' k fk nn True
      have "cell q (col_name k) \<notin> set (column_values db (tbl_name T') (col_name k))"
        unfolding restrict_violations_Nil[OF en] by blast
      with q0 show ?thesis by (simp add: column_values_def)
    qed
    with p show "\<exists>p\<in>set (db' t'). cell p c' = cell q (col_name k)" by blast
  qed
qed

lemma refers_update:
  assumes en: "foreign_keys eng" and T': "T' \<in> set metadata" and k: "k \<in> set (tbl_columns T')"
    and fk: "foreign_key k = Some (t', c')"
    and inv: "refers db (tbl_name T') (col_name k) t' c'"
    and ok: "update_rows eng t w c v db = Inr db'"
  shows "refers db' (tbl_name T') (col_name k) t' c'"
proof (cases "db' = db")
  case True
  with inv show ?thesis by simp
next
  case False
  with update_rows_InrD[OF ok] obtain T k0 where
    T: "find_table t = Some T" and k0: "k0 \<in> set (tbl_columns T)" "col_name k0 = c"
    and vv: "value_violations eng db t (map (\<lambda>r. cell r c) (filter (\<lambda>r. \<not> matches w r) (db t))) k0 v = []"
    and rv: "restrict_violations eng db t c
         (filter (\<lambda>x. x \<noteq> v) (map (\<lambda>r. cell r c) (filter (matches w) (db t)))) = []"
    and db': "db' = db(t := map (\<lambda>r. if matches w r then put r c v else r) (db t))"
    by blast
  from T have Tm: "T \<in> set metadata" and Tn: "tbl_name T = t"
    by (simp_all add: find_table_SomeD)
  define u where "u = (\<lambda>r. if matches w r then put r c v else r)"
  have u_cell: "cell (u p) a = (if matches w p \<and> a = c then v else cell p a)" for p a
    by (simp add: u_def cell_put)
  have new_t: "set (db' t) = u ` set (db t)"
    by (simp add: db' u_def)
  have new_other: "x \<noteq> t \<Longrightarrow> db' x = db x" for x
    by (simp add: db')
  show ?thesis
  proof (rule refers_I)
    fix q
    assume q: "q \<in> set (db' (tbl_name T'))" and nn: "cell q (col_name k) \<noteq> Null"
    define x where "x = cell q (col_name k)"
    \<comment> \<open>the value is the one just written, or it was in the column before\<close>
    have origin: "(tbl_name T' = t \<and> col_name k = c \<and> x = v) \<or>
        (\<exists>q0\<in>set (db (tbl_name T')). cell q0 (col_name k) = x)"
    proof (cases "tbl_name T' = t")
      case False
      with q have "q \<in> set (db (tbl_name T'))" by (simp add: new_other)
      then show ?thesis unfolding x_def by blast
    next
      case True
      with q new_t obtain q0 where q0: "q0 \<in> set (db t)" "q = u q0" by auto
      then have "x = (if matches w q0 \<and> col_name k = c then v else cell q0 (col_name k))"
        by (simp add: x_def u_cell)
      with q0(1) True show ?thesis by (cases "matches w q0 \<and> col_name k = c") auto
    qed
    have "\<exists>p\<in>set (db t'). cell p c' = x"
    proof (cases "tbl_name T' = t \<and> col_name k = c \<and> x = v")
      case True
      with T' Tm Tn have "T' = T" by (simp add: table_eqI)
      with k k0 True have "k = k0" using Tm by (auto intro: column_eqI)
      with vv fk en have "v = Null \<or> v \<in> set (column_values db t' c')"
        by (simp add: value_violations_Nil)
      with nn True show ?thesis
        by (auto simp: column_values_def x_def)
    next
      case False
      with origin obtain q0 where q0: "q0 \<in> set (db (tbl_name T'))" "cell q0 (col_name k) = x"
        by blast
      from nn q0(2) have "cell q0 (col_name k) \<noteq> Null" by (simp add: x_def)
      from refers_D[OF inv q0(1) this] q0(2) show ?thesis by simp
    qed
    then obtain p where p: "p \<in> set (db t')" "cell p c' = x" by blast
    have "\<exists>p\<in>set (db' t'). cell p c' = x"
    proof (cases "t' = t")
      case False
      with p show ?thesis by (auto simp: new_other)
    next
      case t't: True
      with p new_t have in': "u p \<in> set (db' t')" by auto
      show ?thesis
      proof (cases "matches w p \<and> c' = c \<and> x \<noteq> v")
        case False
        with p have "cell (u p) c' = x" by (auto simp: u_cell)
        with in' show ?thesis by blast
      next
        case gone: True
        \<comment> \<open>a referenced value would leave the column: the statement is refused\<close>
        from p gone t't have "x \<in> set (filter (\<lambda>x. x \<noteq> v) (map (\<lambda>r. cell r c) (filter (matches w) (db t))))"
          by (simp add: image_iff) metis
        moreover from fk gone t't have "foreign_key k = Some (t, c)" by simp
        moreover from nn have "x \<noteq> Null" by (simp add: x_def)
        ultimately have notin: "x \<notin> set (column_values db (tbl_name T') (col_name k))"
          using rv T' k unfolding restrict_violations_Nil[OF en] by blast
        from origin gone obtain q0 where "q0 \<in> set (db (tbl_name T'))" "cell q0 (col_name k) = x"
          by blast
        with notin show ?thesis by (auto simp: column_values_def)
      qed
    qed
    then show "\<exists>p\<in>set (db' t'). cell p c' = cell q (col_name k)" by (simp add: x_def)
  qed
qed

lemma refers_execute:
  assumes en: "foreign_keys eng"
    and T': "T' \<in> set metadata" and k: "k \<in> set (tbl_columns T')"
    and fk: "foreign_key k = Some (t', c')"
    and inv: "refers db (tbl_name T') (col_name k) t' c'" and ok: "execute eng s db = Inr db'"
  shows "refers db' (tbl_name T') (col_name k) t' c'"
proof (cases s)
  case (Insert t r)
  with ok have "insert_row eng t r db = Inr db'" by simp
  from refers_insert[OF en T' k fk inv this] show ?thesis .
next
  case (Update t w c v)
  with ok have "update_rows eng t w c v db = Inr db'" by simp
  from refers_update[OF en T' k fk inv this] show ?thesis .
next
  case (Delete t w)
  with ok have "delete_rows eng t w db = Inr db'" by simp
  from refers_delete[OF en T' k fk inv this] show ?thesis .
qed

lemma refers_empty: "refers empty_db t c t' c'"
  by (simp add: refers_def empty_db_def)

subsection \<open>NOT NULL: a required column stays filled\<close>

lemma filled_D: "filled db t c \<Longrightarrow> r \<in> set (db t) \<Longrightarrow> cell r c \<noteq> Null"
  unfolding filled_def column_values_def by (simp add: image_iff) metis

lemma filled_I:
  assumes "\<And>r. r \<in> set (db t) \<Longrightarrow> cell r c \<noteq> Null"
  shows "filled db t c"
  unfolding filled_def column_values_def using assms by (simp add: image_iff) metis

lemma filled_insert:
  assumes T': "T' \<in> set metadata" and k: "k \<in> set (tbl_columns T')" and nn: "\<not> is_nullable k"
    and inv: "filled db (tbl_name T') (col_name k)"
    and ok: "insert_row eng t r db = Inr db'"
  shows "filled db' (tbl_name T') (col_name k)"
proof -
  from insert_row_InrD[OF ok] obtain T where T: "find_table t = Some T"
    and chk: "\<And>k. k \<in> set (tbl_columns T) \<Longrightarrow>
           value_violations eng db t (column_values db t (col_name k)) k (cell r (col_name k)) = []"
    and db': "db' = db(t := db t @ [r])"
    by blast
  from T have Tm: "T \<in> set metadata" and Tn: "tbl_name T = t"
    by (simp_all add: find_table_SomeD)
  show ?thesis
  proof (rule filled_I)
    fix q
    assume q: "q \<in> set (db' (tbl_name T'))"
    show "cell q (col_name k) \<noteq> Null"
    proof (cases "q \<in> set (db (tbl_name T'))")
      case True
      show ?thesis by (rule filled_D[OF inv True])
    next
      case False
      with q have "tbl_name T' = t" and qr: "q = r"
        by (auto simp: db' split: if_splits)
      with T' Tm Tn have "T' = T" by (simp add: table_eqI)
      with k have "value_violations eng db t (column_values db t (col_name k)) k (cell r (col_name k)) = []"
        by (simp add: chk)
      with nn qr show ?thesis by (auto simp: value_violations_Nil)
    qed
  qed
qed

lemma filled_delete:
  assumes inv: "filled db t' c'" and ok: "delete_rows eng t w db = Inr db'"
  shows "filled db' t' c'"
proof -
  from delete_rows_InrD[OF ok] have db': "db' = db(t := filter (\<lambda>r. \<not> matches w r) (db t))"
    by blast
  have anti: "set (db' x) \<subseteq> set (db x)" for x
    by (auto simp: db')
  show ?thesis
  proof (rule filled_I)
    fix q
    assume "q \<in> set (db' t')"
    with anti have "q \<in> set (db t')" by blast
    then show "cell q c' \<noteq> Null" by (rule filled_D[OF inv])
  qed
qed

lemma filled_update:
  assumes T': "T' \<in> set metadata" and k: "k \<in> set (tbl_columns T')" and nn: "\<not> is_nullable k"
    and inv: "filled db (tbl_name T') (col_name k)"
    and ok: "update_rows eng t w c v db = Inr db'"
  shows "filled db' (tbl_name T') (col_name k)"
proof (cases "db' = db")
  case True
  with inv show ?thesis by simp
next
  case False
  with update_rows_InrD[OF ok] obtain T k0 where
    T: "find_table t = Some T" and k0: "k0 \<in> set (tbl_columns T)" "col_name k0 = c"
    and vv: "value_violations eng db t (map (\<lambda>r. cell r c) (filter (\<lambda>r. \<not> matches w r) (db t))) k0 v = []"
    and db': "db' = db(t := map (\<lambda>r. if matches w r then put r c v else r) (db t))"
    by blast
  from T have Tm: "T \<in> set metadata" and Tn: "tbl_name T = t"
    by (simp_all add: find_table_SomeD)
  define u where "u = (\<lambda>r. if matches w r then put r c v else r)"
  have u_cell: "cell (u p) a = (if matches w p \<and> a = c then v else cell p a)" for p a
    by (simp add: u_def cell_put)
  have new_t: "set (db' t) = u ` set (db t)"
    by (simp add: db' u_def)
  have new_other: "x \<noteq> t \<Longrightarrow> db' x = db x" for x
    by (simp add: db')
  show ?thesis
  proof (rule filled_I)
    fix q
    assume q: "q \<in> set (db' (tbl_name T'))"
    show "cell q (col_name k) \<noteq> Null"
    proof (cases "tbl_name T' = t")
      case False
      with q have "q \<in> set (db (tbl_name T'))" by (simp add: new_other)
      then show ?thesis by (rule filled_D[OF inv])
    next
      case True
      with q new_t obtain q0 where q0: "q0 \<in> set (db t)" "q = u q0" by auto
      from q0(1) True have old: "cell q0 (col_name k) \<noteq> Null"
        using filled_D[OF inv] by simp
      show ?thesis
      proof (cases "matches w q0 \<and> col_name k = c")
        case False
        with old q0 show ?thesis by (auto simp: u_cell)
      next
        case hit: True
        from True T' Tm Tn have "T' = T" by (simp add: table_eqI)
        with k k0 hit have "k = k0" using Tm by (auto intro: column_eqI)
        with vv nn have "v \<noteq> Null" by (auto simp: value_violations_Nil)
        with hit q0 show ?thesis by (simp add: u_cell)
      qed
    qed
  qed
qed

lemma filled_execute:
  assumes "T' \<in> set metadata" "k \<in> set (tbl_columns T')" "\<not> is_nullable k"
    and "filled db (tbl_name T') (col_name k)" and "execute eng s db = Inr db'"
  shows "filled db' (tbl_name T') (col_name k)"
proof (cases s)
  case (Insert t r)
  with assms show ?thesis by (simp add: filled_insert)
next
  case (Update t w c v)
  with assms(5) have "update_rows eng t w c v db = Inr db'" by simp
  from filled_update[OF assms(1-4) this] show ?thesis .
next
  case (Delete t w)
  with assms(5) have "delete_rows eng t w db = Inr db'" by simp
  from filled_delete[OF assms(4) this] show ?thesis .
qed

lemma filled_run:
  assumes "T' \<in> set metadata" "k \<in> set (tbl_columns T')" "\<not> is_nullable k"
  shows "filled db (tbl_name T') (col_name k) \<Longrightarrow> run eng ss db = Inr db' \<Longrightarrow>
    filled db' (tbl_name T') (col_name k)"
proof (induction ss arbitrary: db)
  case Nil
  then show ?case by simp
next
  case (Cons s ss)
  from Cons.prems(2) obtain db1 where s: "execute eng s db = Inr db1" and ss: "run eng ss db1 = Inr db'"
    by (auto split: sum.splits)
  from filled_execute[OF assms Cons.prems(1) s] have "filled db1 (tbl_name T') (col_name k)" .
  from Cons.IH[OF this ss] show ?case .
qed

lemma filled_empty: "filled empty_db t c"
  by (simp add: filled_def empty_db_def column_values_def)

subsection \<open>UNIQUE: the values of a unique column stay distinct\<close>

lemma unique_in_iff:
  "unique_in db t c \<longleftrightarrow> distinct (filter (\<lambda>v. v \<noteq> Null) (map (\<lambda>r. cell r c) (db t)))"
  by (simp add: unique_in_def column_values_def)

lemma distinct_filter_map_filter:
  "distinct (filter P (map f xs)) \<Longrightarrow> distinct (filter P (map f (filter Q xs)))"
  by (induction xs) auto

lemma distinct_overwrite:
  assumes "distinct (filter P (map f xs))"
    and "P v \<Longrightarrow> v \<notin> f ` {x \<in> set xs. \<not> m x}"
    and "P v \<Longrightarrow> length (filter m xs) \<le> 1"
  shows "distinct (filter P (map (\<lambda>x. if m x then v else f x) xs))"
  using assms
proof (induction xs)
  case Nil
  then show ?case by simp
next
  case (Cons a xs)
  have IH: "distinct (filter P (map (\<lambda>x. if m x then v else f x) xs))"
  proof (rule Cons.IH)
    show "distinct (filter P (map f xs))"
      using Cons.prems(1) by (simp split: if_splits)
    show "v \<notin> f ` {x \<in> set xs. \<not> m x}" if "P v"
      using Cons.prems(2)[OF that] by auto
    show "length (filter m xs) \<le> 1" if "P v"
      using Cons.prems(3)[OF that] by (simp split: if_splits)
  qed
  show ?case
  proof (cases "m a")
    case True
    show ?thesis
    proof (cases "P v")
      case False
      with True IH show ?thesis by simp
    next
      case Pv: True
      with Cons.prems(3) True have none: "filter m xs = []" by simp
      then have "\<forall>x\<in>set xs. \<not> m x" by (simp add: filter_empty_conv)
      moreover from this Cons.prems(2)[OF Pv] have "v \<notin> f ` set xs" by auto
      ultimately have "v \<notin> set (map (\<lambda>x. if m x then v else f x) xs)" by auto
      with True IH show ?thesis by simp
    qed
  next
    case False
    show ?thesis
    proof (cases "P (f a)")
      case nP: False
      with False IH show ?thesis by simp
    next
      case Pa: True
      from Cons.prems(1) Pa have notin: "f a \<notin> f ` set xs" by auto
      have "f a \<notin> set (map (\<lambda>x. if m x then v else f x) xs)"
      proof
        assume "f a \<in> set (map (\<lambda>x. if m x then v else f x) xs)"
        then obtain x where x: "x \<in> set xs" "f a = (if m x then v else f x)" by auto
        with notin have "m x" "f a = v" by (auto split: if_splits)
        with Pa Cons.prems(2) False show False by auto
      qed
      with False Pa IH show ?thesis by simp
    qed
  qed
qed

lemma unique_in_insert:
  assumes T': "T' \<in> set metadata" and k: "k \<in> set (tbl_columns T')" and uq: "is_unique k"
    and inv: "unique_in db (tbl_name T') (col_name k)"
    and ok: "insert_row eng t r db = Inr db'"
  shows "unique_in db' (tbl_name T') (col_name k)"
proof -
  from insert_row_InrD[OF ok] obtain T where T: "find_table t = Some T"
    and chk: "\<And>k. k \<in> set (tbl_columns T) \<Longrightarrow>
           value_violations eng db t (column_values db t (col_name k)) k (cell r (col_name k)) = []"
    and db': "db' = db(t := db t @ [r])"
    by blast
  from T have Tm: "T \<in> set metadata" and Tn: "tbl_name T = t"
    by (simp_all add: find_table_SomeD)
  note old = inv[unfolded unique_in_iff]
  show ?thesis
    unfolding unique_in_iff
  proof (cases "tbl_name T' = t")
    case False
    with old show "distinct (filter (\<lambda>v. v \<noteq> Null) (map (\<lambda>r. cell r (col_name k)) (db' (tbl_name T'))))"
      by (simp add: db')
  next
    case True
    with T' Tm Tn have "T' = T" by (simp add: table_eqI)
    with k have "value_violations eng db t (column_values db t (col_name k)) k (cell r (col_name k)) = []"
      by (simp add: chk)
    with uq have "cell r (col_name k) = Null \<or>
        cell r (col_name k) \<notin> set (map (\<lambda>r. cell r (col_name k)) (db t))"
      by (auto simp: value_violations_Nil column_values_def)
    with old True
    show "distinct (filter (\<lambda>v. v \<noteq> Null) (map (\<lambda>r. cell r (col_name k)) (db' (tbl_name T'))))"
      by (auto simp: db')
  qed
qed

lemma unique_in_delete:
  assumes inv: "unique_in db t' c'" and ok: "delete_rows eng t w db = Inr db'"
  shows "unique_in db' t' c'"
proof -
  from delete_rows_InrD[OF ok] have db': "db' = db(t := filter (\<lambda>r. \<not> matches w r) (db t))"
    by blast
  note old = inv[unfolded unique_in_iff]
  show ?thesis
    unfolding unique_in_iff
  proof (cases "t' = t")
    case False
    with old show "distinct (filter (\<lambda>v. v \<noteq> Null) (map (\<lambda>r. cell r c') (db' t')))"
      by (simp add: db')
  next
    case True
    with old show "distinct (filter (\<lambda>v. v \<noteq> Null) (map (\<lambda>r. cell r c') (db' t')))"
      by (simp add: db' distinct_filter_map_filter)
  qed
qed

lemma unique_in_update:
  assumes T': "T' \<in> set metadata" and k: "k \<in> set (tbl_columns T')" and uq: "is_unique k"
    and inv: "unique_in db (tbl_name T') (col_name k)"
    and ok: "update_rows eng t w c v db = Inr db'"
  shows "unique_in db' (tbl_name T') (col_name k)"
proof (cases "db' = db")
  case True
  with inv show ?thesis by simp
next
  case False
  with update_rows_InrD[OF ok] obtain T k0 where
    T: "find_table t = Some T" and k0: "k0 \<in> set (tbl_columns T)" "col_name k0 = c"
    and vv: "value_violations eng db t (map (\<lambda>r. cell r c) (filter (\<lambda>r. \<not> matches w r) (db t))) k0 v = []"
    and one: "is_unique k0 \<longrightarrow> v \<noteq> Null \<longrightarrow> length (filter (matches w) (db t)) \<le> 1"
    and db': "db' = db(t := map (\<lambda>r. if matches w r then put r c v else r) (db t))"
    by blast
  from T have Tm: "T \<in> set metadata" and Tn: "tbl_name T = t"
    by (simp_all add: find_table_SomeD)
  note old = inv[unfolded unique_in_iff]
  show ?thesis
    unfolding unique_in_iff
  proof (cases "tbl_name T' = t")
    case False
    with old show "distinct (filter (\<lambda>v. v \<noteq> Null) (map (\<lambda>r. cell r (col_name k)) (db' (tbl_name T'))))"
      by (simp add: db')
  next
    case True
    show "distinct (filter (\<lambda>v. v \<noteq> Null) (map (\<lambda>r. cell r (col_name k)) (db' (tbl_name T'))))"
    proof (cases "col_name k = c")
      case False
      then have "map (\<lambda>r. cell r (col_name k)) (db' t) = map (\<lambda>r. cell r (col_name k)) (db t)"
        by (simp add: db' cell_put o_def)
      with old True show ?thesis by simp
    next
      case same: True
      from True T' Tm Tn have "T' = T" by (simp add: table_eqI)
      with k k0 same have "k = k0" using Tm by (auto intro: column_eqI)
      have new: "map (\<lambda>r. cell r c) (db' t) =
          map (\<lambda>r. if matches w r then v else cell r c) (db t)"
        by (simp add: db' cell_put o_def if_distrib[of "\<lambda>r. cell r c"] cong: if_cong)
      from old True same have d: "distinct (filter (\<lambda>v. v \<noteq> Null) (map (\<lambda>r. cell r c) (db t)))"
        by simp
      have "distinct (filter (\<lambda>v. v \<noteq> Null) (map (\<lambda>r. if matches w r then v else cell r c) (db t)))"
      proof (rule distinct_overwrite[OF d])
        assume "v \<noteq> Null"
        with vv uq \<open>k = k0\<close> show "v \<notin> (\<lambda>r. cell r c) ` {x \<in> set (db t). \<not> matches w x}"
          by (auto simp: value_violations_Nil)
      next
        assume "v \<noteq> Null"
        with one uq \<open>k = k0\<close> show "length (filter (matches w) (db t)) \<le> 1" by simp
      qed
      with new True same show ?thesis by simp
    qed
  qed
qed

lemma unique_in_execute:
  assumes "T' \<in> set metadata" "k \<in> set (tbl_columns T')" "is_unique k"
    and "unique_in db (tbl_name T') (col_name k)" and "execute eng s db = Inr db'"
  shows "unique_in db' (tbl_name T') (col_name k)"
proof (cases s)
  case (Insert t r)
  with assms show ?thesis by (simp add: unique_in_insert)
next
  case (Update t w c v)
  with assms(5) have "update_rows eng t w c v db = Inr db'" by simp
  from unique_in_update[OF assms(1-4) this] show ?thesis .
next
  case (Delete t w)
  with assms(5) have "delete_rows eng t w db = Inr db'" by simp
  from unique_in_delete[OF assms(4) this] show ?thesis .
qed

lemma unique_in_run:
  assumes "T' \<in> set metadata" "k \<in> set (tbl_columns T')" "is_unique k"
  shows "unique_in db (tbl_name T') (col_name k) \<Longrightarrow> run eng ss db = Inr db' \<Longrightarrow>
    unique_in db' (tbl_name T') (col_name k)"
proof (induction ss arbitrary: db)
  case Nil
  then show ?case by simp
next
  case (Cons s ss)
  from Cons.prems(2) obtain db1 where s: "execute eng s db = Inr db1" and ss: "run eng ss db1 = Inr db'"
    by (auto split: sum.splits)
  from unique_in_execute[OF assms Cons.prems(1) s] have "unique_in db1 (tbl_name T') (col_name k)" .
  from Cons.IH[OF this ss] show ?case .
qed

lemma unique_in_empty: "unique_in empty_db t c"
  by (simp add: unique_in_def empty_db_def column_values_def)

subsection \<open>From a declaration to its invariant\<close>

lemmas store_defs =
  insert_row_def update_rows_def delete_rows_def find_table_def unknown_columns_def
  value_violations_def
  restrict_violations_def referencing_def column_values_def cell_def is_nullable_def
  is_unique_def empty_db_def matches_def put_def

lemmas declared_defs = declared_def find_column_def find_table_def is_nullable_def is_unique_def

lemma find_distinct:
  "distinct (map f xs) \<Longrightarrow> x \<in> set xs \<Longrightarrow> find (\<lambda>y. f y = f x) xs = Some x"
  by (induction xs) (auto simp: image_iff)

lemma find_table_in: "T \<in> set metadata \<Longrightarrow> find_table (tbl_name T) = Some T"
  unfolding find_table_def using distinct_table_names by (rule find_distinct)

lemma declaredD:
  assumes "declared t c P"
  shows "\<exists>T k. T \<in> set metadata \<and> tbl_name T = t \<and> k \<in> set (tbl_columns T) \<and>
     col_name k = c \<and> P k"
proof -
  from assms obtain k where k: "find_column t c = Some k" "P k"
    by (auto simp: declared_def split: option.splits)
  then obtain T where T: "find_table t = Some T" "find (\<lambda>k. col_name k = c) (tbl_columns T) = Some k"
    by (auto simp: find_column_def split: option.splits)
  with k find_table_SomeD[OF T(1)] find_column_SomeD[OF T(2)] show ?thesis by blast
qed

lemma unique_in_reachable:
  assumes "declared t c is_unique" "run eng ss empty_db = Inr db"
  shows "unique_in db t c"
proof -
  from declaredD[OF assms(1)] obtain T k where
    "T \<in> set metadata" "tbl_name T = t" "k \<in> set (tbl_columns T)" "col_name k = c" "is_unique k"
    by blast
  with unique_in_run[OF this(1,3,5) _ assms(2)] unique_in_empty show ?thesis by simp
qed

lemma filled_reachable:
  assumes "declared t c (\<lambda>k. \<not> is_nullable k)" "run eng ss empty_db = Inr db"
  shows "filled db t c"
proof -
  from declaredD[OF assms(1)] obtain T k where
    "T \<in> set metadata" "tbl_name T = t" "k \<in> set (tbl_columns T)" "col_name k = c" "\<not> is_nullable k"
    by blast
  with filled_run[OF this(1,3,5) _ assms(2)] filled_empty show ?thesis by simp
qed

lemma refers_preserved:
  assumes en: "foreign_keys eng"
    and d: "declared t c (\<lambda>k. foreign_key k = Some (t', c'))"
    and inv: "refers db t c t' c'" and ok: "execute eng s db = Inr db'"
  shows "refers db' t c t' c'"
proof -
  from declaredD[OF d] obtain T k where
    "T \<in> set metadata" "tbl_name T = t" "k \<in> set (tbl_columns T)" "col_name k = c"
    "foreign_key k = Some (t', c')"
    by blast
  with refers_execute[OF en this(1,3,5) _ ok] inv show ?thesis by simp
qed

lemma distinct_of_unique_filled:
  assumes "unique_in db t c" "filled db t c"
  shows "distinct (map (\<lambda>r. cell r c) (db t))"
proof -
  from assms(2) have "filter (\<lambda>v. v \<noteq> Null) (map (\<lambda>r. cell r c) (db t)) = map (\<lambda>r. cell r c) (db t)"
    by (simp add: filled_def column_values_def filter_id_conv image_iff) metis
  with assms(1) show ?thesis by (simp add: unique_in_iff)
qed

lemma first_error_Inl: "es \<noteq> [] \<Longrightarrow> \<exists>e. (case es of [] \<Rightarrow> Inr a | e # x \<Rightarrow> Inl e) = Inl e"
  by (cases es) auto

text \<open>A row whose value in a unique column is already taken is refused, whatever else it holds.\<close>

lemma insert_row_taken:
  assumes d: "declared t c is_unique" and u: "u \<in> set (db t)"
    and nn: "cell u c \<noteq> Null" and eq: "cell r c = cell u c"
  shows "\<exists>e. insert_row eng t r db = Inl e"
proof -
  from declaredD[OF d] obtain T k where T: "T \<in> set metadata" "tbl_name T = t"
    and k: "k \<in> set (tbl_columns T)" "col_name k = c" "is_unique k"
    by blast
  from T have ft: "find_table t = Some T"
    using find_table_in by blast
  show ?thesis
  proof (cases "unknown_columns T (map fst r)")
    case (Cons c cs)
    then show ?thesis by (simp add: insert_row_def ft)
  next
    case Nil
    from u eq have "cell r c \<in> set (column_values db t c)"
      by (simp add: column_values_def image_iff) metis
    with nn eq k have "value_violations eng db t (column_values db t (col_name k)) k (cell r (col_name k)) \<noteq> []"
      by (simp add: value_violations_def)
    with k(1) have "concat (map (\<lambda>k. value_violations eng db t
          (column_values db t (col_name k)) k (cell r (col_name k))) (tbl_columns T)) \<noteq> []"
      by auto
    from first_error_Inl[OF this] Nil show ?thesis
      by (simp add: insert_row_def ft)
  qed
qed

section \<open>Users\<close>

lemma users_declared:
  "declared ''users'' ''username'' is_unique"
  "declared ''users'' ''username'' (\<lambda>k. \<not> is_nullable k)"
  "declared ''users'' ''email'' is_unique"
  "declared ''users'' ''email'' (\<lambda>k. \<not> is_nullable k)"
  by (simp_all add: declared_defs schema_defs)

text \<open>
  Claim C1. In every store reached from the empty one by accepted statements, the usernames
  of the rows of \<open>users\<close> are pairwise distinct and so are the emails; and creating a
  user whose email is that of an existing user is refused: the store afterwards is the store
  before, and an error is reported. The uniqueness is the one the columns declare
  (\<^verbatim>\<open>unique=True, nullable=False\<close>, lines 45 and 46).
\<close>

theorem users_username_email_unique:
  assumes "run eng ss empty_db = Inr db"
  shows "distinct (map (\<lambda>u. cell u ''username'') (db ''users''))
     \<and> distinct (map (\<lambda>u. cell u ''email'') (db ''users''))
     \<and> (\<forall>u\<in>set (db ''users''). \<forall>r. cell r ''email'' = cell u ''email'' \<longrightarrow>
           (\<exists>e. attempt eng (Insert ''users'' r) db = (db, Some e)))"
proof -
  note un = unique_in_reachable[OF users_declared(1) assms]
  note fn = filled_reachable[OF users_declared(2) assms]
  note ue = unique_in_reachable[OF users_declared(3) assms]
  note fe = filled_reachable[OF users_declared(4) assms]
  have rej: "\<exists>e. attempt eng (Insert ''users'' r) db = (db, Some e)"
    if "u \<in> set (db ''users'')" "cell r ''email'' = cell u ''email''" for u r
    using insert_row_taken[where db = db and t = "''users''" and eng = eng, OF users_declared(3) that(1)
        filled_D[OF fe that(1)] that(2)]
    by (auto simp: attempt_def)
  from distinct_of_unique_filled[OF un fn] distinct_of_unique_filled[OF ue fe] rej
  show ?thesis by blast
qed

text \<open>
  Two users are stored; a third row with a fresh id and username and the email of the first
  is refused with a uniqueness violation on \<open>email\<close>, and the two users stay.
\<close>

theorem users_username_email_unique_witness:
  "run sqlite_memory [Insert ''users'' leia, Insert ''users'' han] empty_db = Inr (empty_db(''users'' := [leia, han]))
   \<and> distinct (map (\<lambda>u. cell u ''username'') [leia, han])
   \<and> distinct (map (\<lambda>u. cell u ''email'') [leia, han])
   \<and> cell impostor ''email'' = cell leia ''email''
   \<and> attempt sqlite_memory (Insert ''users'' impostor) (empty_db(''users'' := [leia, han])) =
       (empty_db(''users'' := [leia, han]), Some (UniqueViolation ''users'' ''email''))"
proof -
  have r: "run sqlite_memory [Insert ''users'' leia, Insert ''users'' han] empty_db =
      Inr (empty_db(''users'' := [leia, han]))"
    by (simp add: store_defs schema_defs leia_def han_def)
  have a: "attempt sqlite_memory (Insert ''users'' impostor) (empty_db(''users'' := [leia, han])) =
       (empty_db(''users'' := [leia, han]), Some (UniqueViolation ''users'' ''email''))"
    by (simp add: attempt_def store_defs schema_defs leia_def han_def impostor_def)
  have c: "cell impostor ''email'' = cell leia ''email''"
    by (simp add: cell_def leia_def impostor_def)
  from users_username_email_unique[OF r] r a c show ?thesis by simp
qed

section \<open>References\<close>

lemmas row_defs = leia_def han_def impostor_def tatooine_def luke_def a_new_hope_def x_wing_def
  luke_favorite_def luke_in_a_new_hope_def tatooine_in_a_new_hope_def x_wing_in_a_new_hope_def
  post_def reply_def orphan_def blank_def rey_def luke_columns_def

lemma run_galaxy_script: "run eng galaxy_script empty_db = Inr galaxy"
  by (simp add: galaxy_script_def galaxy_def store_defs schema_defs row_defs)

lemma galaxy_integrity: "referential_integrity galaxy"
  by (simp add: referential_integrity_def refers_def galaxy_def empty_db_def cell_def row_defs)

lemma reference_columns:
  "declared ''characters'' ''home_planet_id'' (\<lambda>k. foreign_key k = Some (''planets'', ''id''))"
  "declared ''blog_posts'' ''author_id'' (\<lambda>k. foreign_key k = Some (''users'', ''id''))"
  "declared ''comments'' ''author_id'' (\<lambda>k. foreign_key k = Some (''users'', ''id''))"
  "declared ''comments'' ''post_id'' (\<lambda>k. foreign_key k = Some (''blog_posts'', ''id''))"
  by (simp_all add: declared_defs schema_defs)

lemma referential_integrity_execute:
  assumes en: "foreign_keys eng"
    and inv: "referential_integrity db" and ok: "execute eng s db = Inr db'"
  shows "referential_integrity db'"
  using inv refers_preserved[OF en reference_columns(1) _ ok]
    refers_preserved[OF en reference_columns(2) _ ok]
    refers_preserved[OF en reference_columns(3) _ ok]
    refers_preserved[OF en reference_columns(4) _ ok]
  by (simp add: referential_integrity_def)

lemma referential_integrity_run:
  assumes en: "foreign_keys eng"
  shows "referential_integrity db \<Longrightarrow> run eng ss db = Inr db' \<Longrightarrow> referential_integrity db'"
proof (induction ss arbitrary: db)
  case Nil
  then show ?case by simp
next
  case (Cons s ss)
  from Cons.prems(2) obtain db1 where s: "execute eng s db = Inr db1" and ss: "run eng ss db1 = Inr db'"
    by (auto split: sum.splits)
  from Cons.IH[OF referential_integrity_execute[OF en Cons.prems(1) s] ss] show ?case .
qed

lemma referential_integrity_empty: "referential_integrity empty_db"
  by (simp add: referential_integrity_def refers_empty)

text \<open>
  Claim C6 as stated says that every operation keeps every reference resolved. On the engine
  the file names, which does not enforce foreign keys, the example store has every reference
  resolved, and two accepted statements break that: a character is stored whose home planet
  9 is no stored planet, and user 2 is deleted while a comment still names it as author.
\<close>

theorem referential_integrity_counterexample:
  "referential_integrity galaxy
   \<and> execute sqlite_memory (Insert ''characters'' rey) galaxy =
       Inr (galaxy(''characters'' := [luke, rey]))
   \<and> cell rey ''home_planet_id'' = IntV 9
   \<and> map (\<lambda>p. cell p ''id'') (galaxy ''planets'') = [IntV 1]
   \<and> \<not> referential_integrity (galaxy(''characters'' := [luke, rey]))
   \<and> execute sqlite_memory (Delete ''users'' [(''id'', IntV 2)]) galaxy =
       Inr (galaxy(''users'' := [leia]))
   \<and> cell reply ''author_id'' = IntV 2
   \<and> \<not> referential_integrity (galaxy(''users'' := [leia]))"
proof -
  have "execute sqlite_memory (Insert ''characters'' rey) galaxy =
       Inr (galaxy(''characters'' := [luke, rey]))"
    "execute sqlite_memory (Delete ''users'' [(''id'', IntV 2)]) galaxy =
       Inr (galaxy(''users'' := [leia]))"
    by (simp_all add: sqlite_memory_def galaxy_def store_defs schema_defs row_defs)
  moreover have "cell rey ''home_planet_id'' = IntV 9" "cell reply ''author_id'' = IntV 2"
    "map (\<lambda>p. cell p ''id'') (galaxy ''planets'') = [IntV 1]"
    by (simp_all add: galaxy_def cell_def row_defs)
  moreover have "\<not> referential_integrity (galaxy(''characters'' := [luke, rey]))"
    "\<not> referential_integrity (galaxy(''users'' := [leia]))"
    by (simp_all add: referential_integrity_def refers_def galaxy_def empty_db_def cell_def
        row_defs)
  ultimately show ?thesis using galaxy_integrity by simp
qed

text \<open>
  Claim C6, as the code has it. The home planet of a character, the author of a blog post and
  the author and the post of a comment are declared as optional foreign keys to the primary
  key \<open>id\<close> of the entity they name. \<open>referential_integrity\<close> says that each such field
  of each stored row is NULL or the \<open>id\<close> of a stored row of that entity. It holds of the
  empty store; on an engine that enforces foreign keys every accepted statement (insert,
  update or delete, on any table) keeps it, and so it holds of every store reached from the
  empty one on such an engine.
\<close>

theorem referential_integrity_preserved:
  "declared ''characters'' ''home_planet_id''
      (\<lambda>k. foreign_key k = Some (''planets'', ''id'') \<and> is_nullable k)
   \<and> declared ''blog_posts'' ''author_id''
      (\<lambda>k. foreign_key k = Some (''users'', ''id'') \<and> is_nullable k)
   \<and> declared ''comments'' ''author_id''
      (\<lambda>k. foreign_key k = Some (''users'', ''id'') \<and> is_nullable k)
   \<and> declared ''comments'' ''post_id''
      (\<lambda>k. foreign_key k = Some (''blog_posts'', ''id'') \<and> is_nullable k)
   \<and> declared ''planets'' ''id'' primary_key
   \<and> declared ''users'' ''id'' primary_key
   \<and> declared ''blog_posts'' ''id'' primary_key
   \<and> referential_integrity empty_db
   \<and> (foreign_keys eng \<longrightarrow> referential_integrity db \<longrightarrow> execute eng s db = Inr db' \<longrightarrow>
        referential_integrity db')
   \<and> (foreign_keys eng \<longrightarrow> run eng ss empty_db = Inr db2 \<longrightarrow> referential_integrity db2)"
proof -
  have "declared ''characters'' ''home_planet_id''
      (\<lambda>k. foreign_key k = Some (''planets'', ''id'') \<and> is_nullable k)"
    "declared ''blog_posts'' ''author_id''
      (\<lambda>k. foreign_key k = Some (''users'', ''id'') \<and> is_nullable k)"
    "declared ''comments'' ''author_id''
      (\<lambda>k. foreign_key k = Some (''users'', ''id'') \<and> is_nullable k)"
    "declared ''comments'' ''post_id''
      (\<lambda>k. foreign_key k = Some (''blog_posts'', ''id'') \<and> is_nullable k)"
    "declared ''planets'' ''id'' primary_key"
    "declared ''users'' ''id'' primary_key"
    "declared ''blog_posts'' ''id'' primary_key"
    by (simp_all add: declared_defs schema_defs)
  moreover note referential_integrity_empty
  moreover have "foreign_keys eng \<longrightarrow> referential_integrity db \<longrightarrow> execute eng s db = Inr db' \<longrightarrow>
      referential_integrity db'"
    using referential_integrity_execute by blast
  moreover have "foreign_keys eng \<longrightarrow> run eng ss empty_db = Inr db2 \<longrightarrow> referential_integrity db2"
    using referential_integrity_run[OF _ referential_integrity_empty] by blast
  ultimately show ?thesis by blast
qed

text \<open>
  On the example store and an enforcing engine: re-pointing the author of the comment at an
  existing user is accepted and keeps the property; pointing it at a user that does not exist,
  deleting a user that a comment names as author, and creating a character on a planet that
  does not exist are refused. Deleting that user the way the mapping library does, first
  clearing the references to it and then deleting the row, is accepted and keeps the property.
\<close>

theorem referential_integrity_preserved_witness:
  "foreign_keys enforcing
   \<and> run enforcing galaxy_script empty_db = Inr galaxy
   \<and> referential_integrity galaxy
   \<and> execute enforcing (Update ''comments'' [(''id'', IntV 20)] ''author_id'' (IntV 1)) galaxy =
       Inr (galaxy(''comments'' := [put reply ''author_id'' (IntV 1)]))
   \<and> referential_integrity (galaxy(''comments'' := [put reply ''author_id'' (IntV 1)]))
   \<and> execute enforcing (Update ''comments'' [(''id'', IntV 20)] ''author_id'' (IntV 5)) galaxy =
       Inl (ForeignKeyViolation ''comments'' ''author_id'')
   \<and> execute enforcing (Delete ''users'' [(''id'', IntV 2)]) galaxy =
       Inl (ForeignKeyViolation ''comments'' ''author_id'')
   \<and> execute enforcing (Insert ''characters'' rey) galaxy =
       Inl (ForeignKeyViolation ''characters'' ''home_planet_id'')
   \<and> run enforcing [Update ''comments'' [(''author_id'', IntV 2)] ''author_id'' Null,
                     Delete ''users'' [(''id'', IntV 2)]] galaxy =
       Inr (galaxy(''comments'' := [put reply ''author_id'' Null], ''users'' := [leia]))
   \<and> referential_integrity
       (galaxy(''comments'' := [put reply ''author_id'' Null], ''users'' := [leia]))"
proof -
  have en: "foreign_keys enforcing" by (simp add: enforcing_def)
  have u: "execute enforcing (Update ''comments'' [(''id'', IntV 20)] ''author_id'' (IntV 1)) galaxy =
       Inr (galaxy(''comments'' := [put reply ''author_id'' (IntV 1)]))"
    by (simp add: enforcing_def galaxy_def store_defs schema_defs row_defs Let_def)
  have bad: "execute enforcing (Update ''comments'' [(''id'', IntV 20)] ''author_id'' (IntV 5)) galaxy =
       Inl (ForeignKeyViolation ''comments'' ''author_id'')"
    "execute enforcing (Delete ''users'' [(''id'', IntV 2)]) galaxy =
       Inl (ForeignKeyViolation ''comments'' ''author_id'')"
    "execute enforcing (Insert ''characters'' rey) galaxy =
       Inl (ForeignKeyViolation ''characters'' ''home_planet_id'')"
    by (simp_all add: enforcing_def galaxy_def store_defs schema_defs row_defs Let_def)
  have orm: "run enforcing [Update ''comments'' [(''author_id'', IntV 2)] ''author_id'' Null,
                     Delete ''users'' [(''id'', IntV 2)]] galaxy =
       Inr (galaxy(''comments'' := [put reply ''author_id'' Null], ''users'' := [leia]))"
    by (simp add: enforcing_def galaxy_def store_defs schema_defs row_defs Let_def)
  have u1: "execute enforcing (Update ''comments'' [(''author_id'', IntV 2)] ''author_id'' Null)
        galaxy = Inr (galaxy(''comments'' := [put reply ''author_id'' Null]))"
    and u2: "execute enforcing (Delete ''users'' [(''id'', IntV 2)])
        (galaxy(''comments'' := [put reply ''author_id'' Null])) =
        Inr (galaxy(''comments'' := [put reply ''author_id'' Null], ''users'' := [leia]))"
    by (simp_all add: enforcing_def galaxy_def store_defs schema_defs row_defs Let_def)
  note step = referential_integrity_preserved[where eng = enforcing, THEN conjunct2,
      THEN conjunct2, THEN conjunct2, THEN conjunct2, THEN conjunct2, THEN conjunct2,
      THEN conjunct2, THEN conjunct2, THEN conjunct1, rule_format, OF en]
  from step[OF galaxy_integrity u]
  have a: "referential_integrity (galaxy(''comments'' := [put reply ''author_id'' (IntV 1)]))" .
  from step[OF step[OF galaxy_integrity u1] u2]
  have b: "referential_integrity
       (galaxy(''comments'' := [put reply ''author_id'' Null], ''users'' := [leia]))" .
  from en run_galaxy_script galaxy_integrity u a bad orm b show ?thesis by simp
qed

section \<open>Relationships\<close>

lemmas nav_defs = related_def find_relationship_def join_of_def find_class_def find_table_def
  fk_columns_to_def the_only_def

lemma related_home_planet:
  "related db Character ''home_planet'' c =
     Inr (filter (linked db (ManyToOne (''home_planet_id'', ''id'')) c) (db ''planets''))"
  by (simp add: nav_defs schema_defs)

lemma related_residents:
  "related db Planet ''residents'' p =
     Inr (filter (linked db (OneToMany (''home_planet_id'', ''id'')) p) (db ''characters''))"
  by (simp add: nav_defs schema_defs)

lemma related_film_characters:
  "related db Film ''characters'' f =
     Inr (filter (linked db (ManyToMany ''character_films'' (''film_id'', ''id'')
                              (''character_id'', ''id'')) f) (db ''characters''))"
  by (simp add: nav_defs schema_defs)

lemma related_character_films:
  "related db Character ''films'' c =
     Inr (filter (linked db (ManyToMany ''character_films'' (''character_id'', ''id'')
                              (''film_id'', ''id'')) c) (db ''films''))"
  by (simp add: nav_defs schema_defs)

lemma related_film_planets:
  "related db Film ''planets'' f =
     Inr (filter (linked db (ManyToMany ''planet_films'' (''film_id'', ''id'')
                              (''planet_id'', ''id'')) f) (db ''planets''))"
  by (simp add: nav_defs schema_defs)

lemma related_planet_films:
  "related db Planet ''films'' p =
     Inr (filter (linked db (ManyToMany ''planet_films'' (''planet_id'', ''id'')
                              (''film_id'', ''id'')) p) (db ''films''))"
  by (simp add: nav_defs schema_defs)

lemma related_film_vehicles:
  "related db Film ''vehicles'' f =
     Inr (filter (linked db (ManyToMany ''vehicle_films'' (''film_id'', ''id'')
                              (''vehicle_id'', ''id'')) f) (db ''vehicles''))"
  by (simp add: nav_defs schema_defs)

lemma related_vehicle_films:
  "related db Vehicle ''films'' v =
     Inr (filter (linked db (ManyToMany ''vehicle_films'' (''vehicle_id'', ''id'')
                              (''film_id'', ''id'')) v) (db ''films''))"
  by (simp add: nav_defs schema_defs)

lemma related_post_comments:
  "related db BlogPost ''comments'' b =
     Inr (filter (linked db (OneToMany (''post_id'', ''id'')) b) (db ''comments''))"
  by (simp add: nav_defs schema_defs)

text \<open>
  Every relationship is declared from both sides: its \<^verbatim>\<open>back_populates\<close> names a
  relationship of the target class that points back, under the same secondary table. And
  every relationship resolves to a join.
\<close>

lemma back_populates_mutual:
  "list_all (\<lambda>K. list_all (\<lambda>r.
      case find_class (argument r) of
        None \<Rightarrow> False
      | Some K' \<Rightarrow>
          (case find_relationship K' (back_populates r) of
             None \<Rightarrow> False
           | Some r' \<Rightarrow> argument r' = cls_name K \<and> back_populates r' = rel_name r \<and>
                       secondary r' = secondary r)) (cls_relationships K)) mapped_classes"
  by (simp add: find_class_def find_relationship_def schema_defs)

lemma all_relationships_resolve:
  "list_all (\<lambda>K. list_all (\<lambda>r. case join_of K r of Inl e \<Rightarrow> False | Inr j \<Rightarrow> True)
      (cls_relationships K)) mapped_classes"
  by (simp add: join_of_def find_class_def find_table_def fk_columns_to_def the_only_def
      schema_defs)


subsection \<open>What a session holds and what it loads\<close>























subsection \<open>A character and the residents of its home planet\<close>




subsection \<open>A film and its characters, planets and vehicles\<close>










section \<open>Blog posts and their comments\<close>

text \<open>
  Setting \<open>author_id\<close> to NULL on the blog posts with a given id is never refused: the
  column is optional, not unique, and no foreign key points at it.
\<close>

lemma clear_author:
  "update_rows eng ''blog_posts'' [(''id'', i)] ''author_id'' Null db =
     Inr (if filter (matches [(''id'', i)]) (db ''blog_posts'') = [] then db
          else db(''blog_posts'' :=
                 map (\<lambda>r. if matches [(''id'', i)] r then put r ''author_id'' Null else r)
                   (db ''blog_posts'')))"
  by (simp add: update_rows_def find_table_def unknown_columns_def value_violations_def
      restrict_violations_def referencing_def is_nullable_def is_unique_def Let_def schema_defs)

text \<open>
  Claim C7. Clearing the author of a stored blog post \<open>b\<close> (setting its \<open>author_id\<close> to
  NULL) is accepted; afterwards the post is stored without author, the table of comments is
  the table before (no comment is deleted, none is changed), and the comments of the post are
  the comments it had. This holds whether or not the post has comments.
\<close>

theorem clearing_author_keeps_comments:
  assumes "b \<in> set (db ''blog_posts'')" and "cell b ''id'' = i" and "i \<noteq> Null"
    and "related db BlogPost ''comments'' b = Inr cs"
  shows "\<exists>db'. execute eng (Update ''blog_posts'' [(''id'', i)] ''author_id'' Null) db = Inr db'
     \<and> put b ''author_id'' Null \<in> set (db' ''blog_posts'')
     \<and> cell (put b ''author_id'' Null) ''author_id'' = Null
     \<and> db' ''comments'' = db ''comments''
     \<and> related db' BlogPost ''comments'' (put b ''author_id'' Null) = Inr cs"
proof -
  let ?w = "[(''id'', i)]"
  let ?db' = "db(''blog_posts'' :=
      map (\<lambda>r. if matches ?w r then put r ''author_id'' Null else r) (db ''blog_posts''))"
  from assms(2,3) have m: "matches ?w b" by (simp add: matches_def)
  with assms(1) have "filter (matches ?w) (db ''blog_posts'') \<noteq> []"
    by (auto simp: filter_empty_conv)
  then have ex: "execute eng (Update ''blog_posts'' ?w ''author_id'' Null) db = Inr ?db'"
    by (simp add: clear_author)
  have "(\<lambda>r. if matches ?w r then put r ''author_id'' Null else r) b \<in>
      (\<lambda>r. if matches ?w r then put r ''author_id'' Null else r) ` set (db ''blog_posts'')"
    using assms(1) by (rule imageI)
  with m have "put b ''author_id'' Null \<in> set (?db' ''blog_posts'')"
    by simp
  moreover have "cell (put b ''author_id'' Null) ''author_id'' = Null"
    by (simp add: cell_put)
  moreover have "?db' ''comments'' = db ''comments''" by simp
  moreover have "related ?db' BlogPost ''comments'' (put b ''author_id'' Null) =
      related db BlogPost ''comments'' b"
  proof -
    have "linked ?db' (OneToMany (''post_id'', ''id'')) (put b ''author_id'' Null) =
        linked db (OneToMany (''post_id'', ''id'')) b"
      by (rule ext) (simp add: cell_put)
    then show ?thesis by (simp add: related_post_comments)
  qed
  ultimately show ?thesis using ex assms(4) by simp
qed

text \<open>On the example store, the post has one comment, and keeps it.\<close>

theorem clearing_author_keeps_comments_witness:
  "post \<in> set (galaxy ''blog_posts'') \<and> cell post ''id'' = IntV 10
   \<and> related galaxy BlogPost ''comments'' post = Inr [reply]
   \<and> execute sqlite_memory (Update ''blog_posts'' [(''id'', IntV 10)] ''author_id'' Null) galaxy =
       Inr (galaxy(''blog_posts'' := [put post ''author_id'' Null]))
   \<and> related (galaxy(''blog_posts'' := [put post ''author_id'' Null])) BlogPost ''comments''
        (put post ''author_id'' Null) = Inr [reply]"
proof -
  have a: "post \<in> set (galaxy ''blog_posts'')" "cell post ''id'' = IntV 10" "IntV 10 \<noteq> Null"
    by (simp_all add: galaxy_def cell_def row_defs)
  have b: "related galaxy BlogPost ''comments'' post = Inr [reply]"
    by (simp add: related_post_comments galaxy_def joined_def cell_def row_defs)
  have c: "execute sqlite_memory (Update ''blog_posts'' [(''id'', IntV 10)] ''author_id'' Null) galaxy =
       Inr (galaxy(''blog_posts'' := [put post ''author_id'' Null]))"
    by (simp add: clear_author galaxy_def matches_def cell_def row_defs)
  from clearing_author_keeps_comments[where eng = sqlite_memory, OF a b] c a b
  show ?thesis by auto
qed

section \<open>What the schema leaves open\<close>

text \<open>
  Claim C9. No column of the six association tables is declared a primary key or unique, so
  nothing forbids a repeated pair: on the example store, where user 1 already has character 1
  as a favorite and character 1 already appears in film 4, inserting the same two links again
  is accepted, and each table then holds its pair twice.
\<close>

theorem duplicate_links_representable:
  "map (\<lambda>t. map (\<lambda>k. (col_name k, primary_key k, unique k)) (tbl_columns t)) association_tables =
     [[(''user_id'', False, False), (''character_id'', False, False)],
      [(''user_id'', False, False), (''planet_id'', False, False)],
      [(''user_id'', False, False), (''vehicle_id'', False, False)],
      [(''character_id'', False, False), (''film_id'', False, False)],
      [(''planet_id'', False, False), (''film_id'', False, False)],
      [(''vehicle_id'', False, False), (''film_id'', False, False)]]
   \<and> run eng galaxy_script empty_db = Inr galaxy
   \<and> galaxy ''user_favorite_characters'' = [luke_favorite]
   \<and> galaxy ''character_films'' = [luke_in_a_new_hope]
   \<and> run eng [Insert ''user_favorite_characters'' luke_favorite,
           Insert ''character_films'' luke_in_a_new_hope] galaxy =
       Inr (galaxy(''user_favorite_characters'' := [luke_favorite, luke_favorite],
                   ''character_films'' := [luke_in_a_new_hope, luke_in_a_new_hope]))
   \<and> cell luke_favorite ''user_id'' = IntV 1 \<and> cell luke_favorite ''character_id'' = IntV 1"
proof -
  have "map (\<lambda>t. map (\<lambda>k. (col_name k, primary_key k, unique k)) (tbl_columns t)) association_tables =
     [[(''user_id'', False, False), (''character_id'', False, False)],
      [(''user_id'', False, False), (''planet_id'', False, False)],
      [(''user_id'', False, False), (''vehicle_id'', False, False)],
      [(''character_id'', False, False), (''film_id'', False, False)],
      [(''planet_id'', False, False), (''film_id'', False, False)],
      [(''vehicle_id'', False, False), (''film_id'', False, False)]]"
    by (simp add: schema_defs)
  moreover have "galaxy ''user_favorite_characters'' = [luke_favorite]"
    "galaxy ''character_films'' = [luke_in_a_new_hope]"
    by (simp_all add: galaxy_def)
  moreover have "run eng [Insert ''user_favorite_characters'' luke_favorite,
           Insert ''character_films'' luke_in_a_new_hope] galaxy =
       Inr (galaxy(''user_favorite_characters'' := [luke_favorite, luke_favorite],
                   ''character_films'' := [luke_in_a_new_hope, luke_in_a_new_hope]))"
    by (simp add: galaxy_def store_defs schema_defs row_defs)
  moreover have "cell luke_favorite ''user_id'' = IntV 1" "cell luke_favorite ''character_id'' = IntV 1"
    by (simp_all add: cell_def row_defs)
  ultimately show ?thesis using run_galaxy_script by simp
qed

text \<open>
  Claim C10. \<open>author_id\<close> and \<open>post_id\<close> of a comment are optional and \<open>content\<close>
  is required (lines 132, 135, 136). A comment with content and neither author nor post is
  accepted, into the empty store and into the example store; a comment with author and post
  and no content is refused.
\<close>

theorem orphan_comment_representable:
  "declared ''comments'' ''author_id'' is_nullable
   \<and> declared ''comments'' ''post_id'' is_nullable
   \<and> declared ''comments'' ''content'' (\<lambda>k. \<not> is_nullable k)
   \<and> cell orphan ''author_id'' = Null \<and> cell orphan ''post_id'' = Null
   \<and> cell orphan ''content'' = StrV ''lost''
   \<and> execute eng (Insert ''comments'' orphan) empty_db = Inr (empty_db(''comments'' := [orphan]))
   \<and> execute eng (Insert ''comments'' orphan) galaxy = Inr (galaxy(''comments'' := [reply, orphan]))
   \<and> cell blank ''content'' = Null
   \<and> execute eng (Insert ''comments'' blank) galaxy = Inl (NotNullViolation ''comments'' ''content'')"
proof -
  have "declared ''comments'' ''author_id'' is_nullable"
    "declared ''comments'' ''post_id'' is_nullable"
    "declared ''comments'' ''content'' (\<lambda>k. \<not> is_nullable k)"
    by (simp_all add: declared_defs schema_defs)
  moreover have "cell orphan ''author_id'' = Null" "cell orphan ''post_id'' = Null"
    "cell orphan ''content'' = StrV ''lost''" "cell blank ''content'' = Null"
    by (simp_all add: cell_def row_defs)
  moreover have "execute eng (Insert ''comments'' orphan) empty_db = Inr (empty_db(''comments'' := [orphan]))"
    by (simp add: store_defs schema_defs row_defs)
  moreover have "execute eng (Insert ''comments'' orphan) galaxy = Inr (galaxy(''comments'' := [reply, orphan]))"
    by (simp add: galaxy_def store_defs schema_defs row_defs)
  moreover have "execute eng (Insert ''comments'' blank) galaxy = Inl (NotNullViolation ''comments'' ''content'')"
    by (simp add: galaxy_def store_defs schema_defs row_defs)
  ultimately show ?thesis by simp
qed

section \<open>Outcomes of the diagram script\<close>

lemmas script_defs = main_def draw_def os_remove_def import_error_handler_def uncaught_def
  stdout_def failure_lines_def

lemmas script_examples = with_dependency_def missing_dependency_def read_only_root_def
  missing_sqlalchemy_def no_files_def earlier_diagram_def output_path_def dirname_def
  path_str_def

lemma concat_singletons: "concat (map (\<lambda>s. [s]) xs) = xs"
  by (induction xs) auto

lemma stdout_of_printed [simp]:
  "concat (map ((\<lambda>ev. case ev of Printed s \<Rightarrow> [s] | _ \<Rightarrow> []) \<circ> Printed) xs) = xs"
  by (simp add: o_def concat_singletons)

lemma output_path_of_repository:
  "script_file e = repo @ [''src'', ''models.py''] \<Longrightarrow> output_path e = repo @ [''diagram.png'']"
  by (simp add: output_path_def dirname_def butlast_append)

text \<open>
  Claim C4, as the code has it. Take an invocation that meets no exception but the two the
  script catches: the module body runs, \<^verbatim>\<open>os.remove\<close> is not refused and the output
  path is not a directory, and the import and the drawing calls raise nothing but
  \<^verbatim>\<open>ImportError\<close>. It ends in exactly one of two ways. Either the package was imported
  and drew: the image is the file at the output path, one line reports it, and the exit
  status is 0. Or the package (or something it needs) could not be imported: the four lines of
  the handler are printed, the exit status is 1, and the file system is the one before except
  that nothing is at the output path any more. The output path is \<^verbatim>\<open>diagram.png\<close> in
  the parent of the directory of the file, the repository root for \<^verbatim>\<open>src/models.py\<close>.
\<close>

theorem diagram_script_outcomes:
  assumes "module_body e = None" and "remove_refused e = None"
    and "fs (output_path e) \<noteq> Directory"
    and "schemadisplay_import e = None \<or> schemadisplay_import e = Some ImportError"
    and "\<forall>x. render e = Inl x \<longrightarrow> x = ImportError"
  shows "((exit_status (main e fs) = 0
        \<and> schemadisplay_import e = None
        \<and> (\<exists>png. render e = Inr png \<and> files (main e fs) = fs(output_path e := RegularFile png))
        \<and> stdout (main e fs) =
            [''diagram.png generated successfully at '' @ path_str (output_path e) @ ''!''])
     \<or> (exit_status (main e fs) = 1
        \<and> (schemadisplay_import e = Some ImportError \<or> render e = Inl ImportError)
        \<and> files (main e fs) = fs(output_path e := Absent)
        \<and> stdout (main e fs) = failure_lines))
     \<and> (script_file e = repo @ [''src'', ''models.py''] \<longrightarrow>
          output_path e = repo @ [''diagram.png''])"
proof
  show "(exit_status (main e fs) = 0
        \<and> schemadisplay_import e = None
        \<and> (\<exists>png. render e = Inr png \<and> files (main e fs) = fs(output_path e := RegularFile png))
        \<and> stdout (main e fs) =
            [''diagram.png generated successfully at '' @ path_str (output_path e) @ ''!''])
     \<or> (exit_status (main e fs) = 1
        \<and> (schemadisplay_import e = Some ImportError \<or> render e = Inl ImportError)
        \<and> files (main e fs) = fs(output_path e := Absent)
        \<and> stdout (main e fs) = failure_lines)"
  proof (cases "fs (output_path e)")
    case Absent
    then have same: "fs(output_path e := Absent) = fs" by auto
    from Absent assms(1,2,4,5) show ?thesis
      unfolding same
      by (cases "render e") (auto simp: main_def draw_def os_remove_def import_error_handler_def
          stdout_def)
  next
    case (RegularFile old)
    with assms(1,2,4,5) show ?thesis
      by (cases "render e") (auto simp: main_def draw_def os_remove_def import_error_handler_def
          stdout_def)
  next
    case Directory
    with assms(3) show ?thesis by simp
  qed
next
  show "script_file e = repo @ [''src'', ''models.py''] \<longrightarrow> output_path e = repo @ [''diagram.png'']"
    by (simp add: output_path_of_repository)
qed

text \<open>
  With the package and an earlier diagram, the diagram is replaced; without the package and
  with an earlier diagram, the message is printed and the diagram is gone; without the package
  and without a diagram, nothing changes.
\<close>

theorem diagram_script_outcomes_witness:
  "module_body missing_dependency = None \<and> remove_refused missing_dependency = None
   \<and> earlier_diagram (output_path missing_dependency) \<noteq> Directory
   \<and> schemadisplay_import missing_dependency = Some ImportError
   \<and> render missing_dependency = Inl ImportError
   \<and> exit_status (main missing_dependency earlier_diagram) = 1
   \<and> files (main missing_dependency earlier_diagram) =
       earlier_diagram([''repo'', ''diagram.png''] := Absent)
   \<and> stdout (main missing_dependency earlier_diagram) = failure_lines
   \<and> exit_status (main with_dependency earlier_diagram) = 0
   \<and> files (main with_dependency earlier_diagram) =
       earlier_diagram([''repo'', ''diagram.png''] := RegularFile ''PNG'')
   \<and> stdout (main with_dependency earlier_diagram) =
       [''diagram.png generated successfully at /repo/diagram.png!'']
   \<and> exit_status (main missing_dependency no_files) = 1
   \<and> files (main missing_dependency no_files) = no_files
   \<and> stdout (main missing_dependency no_files) = failure_lines"
proof -
  have h: "module_body missing_dependency = None" "remove_refused missing_dependency = None"
    "earlier_diagram (output_path missing_dependency) \<noteq> Directory"
    "schemadisplay_import missing_dependency = None \<or>
     schemadisplay_import missing_dependency = Some ImportError"
    "\<forall>x. render missing_dependency = Inl x \<longrightarrow> x = ImportError"
    by (simp_all add: script_examples)
  have v: "schemadisplay_import missing_dependency = Some ImportError"
    "render missing_dependency = Inl ImportError"
    "output_path missing_dependency = [''repo'', ''diagram.png'']"
    by (simp_all add: script_examples)
  have r: "exit_status (main with_dependency earlier_diagram) = 0"
    "files (main with_dependency earlier_diagram) =
       earlier_diagram([''repo'', ''diagram.png''] := RegularFile ''PNG'')"
    "stdout (main with_dependency earlier_diagram) =
       [''diagram.png generated successfully at /repo/diagram.png!'']"
    "exit_status (main missing_dependency no_files) = 1"
    "files (main missing_dependency no_files) = no_files"
    "stdout (main missing_dependency no_files) = failure_lines"
    by (simp_all add: script_defs script_examples)
  from diagram_script_outcomes[where e = missing_dependency and fs = earlier_diagram, OF h]
    h(1-3) v r show ?thesis by simp
qed

text \<open>
  Claim C4 as stated says that the failing run has no effect but the message and the exit
  status. Without the package and with an earlier diagram, the run prints the message, exits
  with 1, and the earlier diagram is gone.
\<close>

theorem diagram_script_failure_counterexample:
  "exit_status (main missing_dependency earlier_diagram) = 1
   \<and> stdout (main missing_dependency earlier_diagram) = failure_lines
   \<and> earlier_diagram [''repo'', ''diagram.png''] = RegularFile ''old''
   \<and> files (main missing_dependency earlier_diagram) [''repo'', ''diagram.png''] = Absent"
  by (simp add: script_defs script_examples)

text \<open>
  Outside these hypotheses there is a third outcome: an exception that neither
  \<^verbatim>\<open>except\<close> clause names ends the script with a traceback and status 1, whatever it had
  done before. So it is when \<^verbatim>\<open>sqlalchemy\<close> is missing (nothing is removed, no message
  of the script is printed), when the removal is refused (the file stays, the import is not
  tried), when the output path is a directory, and when a drawing call fails with another
  error (an earlier diagram is gone by then).
\<close>

lemma diagram_script_uncaught:
  "main missing_sqlalchemy earlier_diagram =
     \<lparr>files = earlier_diagram, events = [Traceback ImportError, Exited 1], exit_status = 1\<rparr>"
  "main read_only_root earlier_diagram =
     \<lparr>files = earlier_diagram, events = [Traceback PermissionError, Exited 1], exit_status = 1\<rparr>"
  "events (main with_dependency (\<lambda>p. Directory)) = [Traceback IsADirectoryError, Exited 1]"
  "main (with_dependency\<lparr>render := Inl (OtherError ''dot not found in path'')\<rparr>) earlier_diagram =
     \<lparr>files = earlier_diagram([''repo'', ''diagram.png''] := Absent),
      events = [Removed [''repo'', ''diagram.png''],
                TriedImport ''sqlalchemy_schemadisplay'' True,
                Traceback (OtherError ''dot not found in path''), Exited 1],
      exit_status = 1\<rparr>"
  by (simp_all add: script_defs script_examples)

text \<open>
  Claim C8 as stated says that every invocation removes an existing file at the output path
  before it checks the import, and that a failing run leaves no diagram. Where the removal is
  refused (a read-only repository root) and the package is missing, the run ends with the
  traceback of the refusal: nothing was removed, the import was not tried, and the earlier
  diagram is still there. Where \<^verbatim>\<open>sqlalchemy\<close> itself is missing, the run ends in the
  module body, before the removal.
\<close>

theorem stale_diagram_kept_counterexample:
  "earlier_diagram (output_path read_only_root) = RegularFile ''old''
   \<and> schemadisplay_import read_only_root = Some ImportError
   \<and> events (main read_only_root earlier_diagram) = [Traceback PermissionError, Exited 1]
   \<and> exit_status (main read_only_root earlier_diagram) = 1
   \<and> files (main read_only_root earlier_diagram) [''repo'', ''diagram.png''] = RegularFile ''old''
   \<and> events (main missing_sqlalchemy earlier_diagram) = [Traceback ImportError, Exited 1]
   \<and> files (main missing_sqlalchemy earlier_diagram) [''repo'', ''diagram.png''] =
       RegularFile ''old''"
  by (simp add: script_defs script_examples)

text \<open>
  Claim C8, as the code has it. When the module body runs, \<^verbatim>\<open>os.remove\<close> is not
  refused and a regular file is at the output path, the first thing the script does is remove
  it, and only then does it try the import; so when the package cannot be imported, the run
  ends with status 1 and the message, and nothing is at the output path.
\<close>

theorem stale_diagram_removed_before_import:
  assumes "module_body e = None" and "remove_refused e = None"
    and "fs (output_path e) = RegularFile old"
  shows "take 2 (events (main e fs)) =
       [Removed (output_path e),
        TriedImport ''sqlalchemy_schemadisplay'' (schemadisplay_import e = None)]
     \<and> (schemadisplay_import e = Some ImportError \<longrightarrow>
          files (main e fs) (output_path e) = Absent
          \<and> exit_status (main e fs) = 1
          \<and> stdout (main e fs) = failure_lines)"
  using assms
  by (cases "render e"; cases "schemadisplay_import e")
     (auto simp: main_def draw_def os_remove_def import_error_handler_def uncaught_def stdout_def)

text \<open>
  A first run with the package writes the diagram; a second run on the resulting file system,
  without the package, removes it and fails.
\<close>

theorem stale_diagram_removed_before_import_witness:
  "module_body missing_dependency = None \<and> remove_refused missing_dependency = None
   \<and> schemadisplay_import missing_dependency = Some ImportError
   \<and> files (main with_dependency no_files) [''repo'', ''diagram.png''] = RegularFile ''PNG''
   \<and> output_path missing_dependency = [''repo'', ''diagram.png'']
   \<and> events (main missing_dependency (files (main with_dependency no_files))) =
       [Removed [''repo'', ''diagram.png''], TriedImport ''sqlalchemy_schemadisplay'' False]
       @ map Printed failure_lines @ [Exited 1]
   \<and> files (main missing_dependency (files (main with_dependency no_files)))
        [''repo'', ''diagram.png''] = Absent
   \<and> exit_status (main missing_dependency (files (main with_dependency no_files))) = 1"
proof -
  have h: "module_body missing_dependency = None" "remove_refused missing_dependency = None"
    by (simp_all add: script_examples)
  have a: "files (main with_dependency no_files) (output_path missing_dependency) = RegularFile ''PNG''"
    by (simp add: script_defs script_examples)
  have b: "output_path missing_dependency = [''repo'', ''diagram.png'']"
    "schemadisplay_import missing_dependency = Some ImportError"
    by (simp_all add: script_examples)
  have c: "events (main missing_dependency (files (main with_dependency no_files))) =
       [Removed [''repo'', ''diagram.png''], TriedImport ''sqlalchemy_schemadisplay'' False]
       @ map Printed failure_lines @ [Exited 1]"
    by (simp add: script_defs script_examples)
  from stale_diagram_removed_before_import[where e = missing_dependency
      and fs = "files (main with_dependency no_files)", OF h a] h a b c
  show ?thesis by simp
qed

end
